theory Spec2Isabelle
  imports Complex_Main "HOL-Library.Sublist" "HOL-Library.Code_Target_Nat"
begin

section \<open>Python values used by the services\<close>

text \<open>
  A Python \<open>str\<close> is modelled as a \<open>string\<close> whose characters are its code points
  (code points above 255 are outside the model); \<open>bytes\<close> are lists of 8-bit characters.
  Sizes, counts and database ids are natural numbers.
\<close>

type_synonym bytes = "char list"

text \<open>Every \<open>raise\<close> site of the services, by kind. All of them are \<open>ValueError\<close> in the
  source and differ by message only; operating-system failures keep the class name.\<close>

datatype error =
    InvalidName                \<comment> \<open>"Filename must be 1-255 characters long", "Invalid filename after sanitization"\<close>
  | PathTraversal              \<comment> \<open>"Path traversal attempt detected!", "Path traversal attempt: ..."\<close>
  | SizeLimitExceeded          \<comment> \<open>"File size exceeds maximum allowed (...)"\<close>
  | InvalidFormat              \<comment> \<open>"Invalid JSON format", "Invalid XML format" raised by \<open>create_file\<close>\<close>
  | DuplicateName              \<comment> \<open>"File with this name already exists"\<close>
  | NotFound                   \<comment> \<open>"File not found or access denied", "File not found on disk"\<close>
  | NotSupported               \<comment> \<open>"Encrypted file reading/updating not implemented in this demo"\<close>
  | ArchiveTooManyFiles        \<comment> \<open>"Archive contains too many files (limit: ...)"\<close>
  | EntryTooLarge              \<comment> \<open>"File ... exceeds size limit"\<close>
  | SuspiciousCompressionRatio \<comment> \<open>"Suspicious compression ratio detected for ...", "Average compression ratio is suspiciously high"\<close>
  | ArchiveTooLarge            \<comment> \<open>"Archive uncompressed size exceeds limit (...)"\<close>
  | DangerousPath              \<comment> \<open>"Dangerous path detected: ..."\<close>
  | ReservedName               \<comment> \<open>"Reserved filename: ..."\<close>
  | CorruptArchive             \<comment> \<open>"Invalid or corrupted ZIP archive"\<close>
  | ExtractionFailed error     \<comment> \<open>"Archive extraction failed: {e}"\<close>
  | MultipleResultsFound       \<comment> \<open>raised by \<open>scalar_one_or_none\<close> on more than one row\<close>
  | IsADirectoryError
  | FileNotFoundError
  | FileExistsError
  | JsonTooLarge | JsonDecodeError | JsonTooDeep
  | XmlTooLarge | XmlParseError | XmlTooManyElements
  | AttributeError             \<comment> \<open>"'SecureXMLParser' object has no attribute 'parser'"\<close>
  | BadZipFile                 \<comment> \<open>raised by \<open>zipfile\<close> on a damaged archive or entry\<close>
  | ZlibError                  \<comment> \<open>\<open>zlib.error\<close>, raised by \<open>zipf.read\<close> on a damaged deflate stream\<close>

subsection \<open>String methods\<close>

definition ascii_lower :: "char \<Rightarrow> char" where
  "ascii_lower c =
     (let n = (of_char c :: nat) in
      if (65 \<le> n \<and> n \<le> 90) \<or> (192 \<le> n \<and> n \<le> 222 \<and> n \<noteq> 215)
      then char_of (n + 32) else c)"

text \<open>\<open>str.lower()\<close> on code points below 256.\<close>

definition lower :: "string \<Rightarrow> string" where
  "lower s = map ascii_lower s"


definition endswith :: "string \<Rightarrow> string \<Rightarrow> bool" where
  "endswith s suf = suffix suf s"

definition startswith :: "string \<Rightarrow> string \<Rightarrow> bool" where
  "startswith s pre = prefix pre s"

text \<open>\<open>sub in s\<close> on strings.\<close>

fun contains :: "string \<Rightarrow> string \<Rightarrow> bool" where
  "contains sub [] = (sub = [])"
| "contains sub (x # xs) = (prefix sub (x # xs) \<or> contains sub xs)"

text \<open>\<open>s.replace(old, new)\<close> for a non-empty \<open>old\<close>: leftmost occurrences first, not
  overlapping.\<close>

function str_replace :: "string \<Rightarrow> string \<Rightarrow> string \<Rightarrow> string" where
  "str_replace old new [] = []"
| "str_replace old new (x # xs) =
     (if old \<noteq> [] \<and> prefix old (x # xs)
      then new @ str_replace old new (drop (length old) (x # xs))
      else x # str_replace old new xs)"
  by pat_completeness auto
termination
  by (relation "measure (\<lambda>(old, new, s). length s)") (auto simp: neq_Nil_conv)

text \<open>\<open>s.strip(chars)\<close>.\<close>

definition strip_chars :: "string \<Rightarrow> string \<Rightarrow> string" where
  "strip_chars cs s =
     rev (dropWhile (\<lambda>c. c \<in> set cs) (rev (dropWhile (\<lambda>c. c \<in> set cs) s)))"

text \<open>The characters below 256 for which \<open>str.isspace()\<close> holds.\<close>

definition whitespace :: "string" where
  "whitespace = [CHR 0x09, CHR 0x0A, CHR 0x0B, CHR 0x0C, CHR 0x0D, CHR 0x1C, CHR 0x1D,
                 CHR 0x1E, CHR 0x1F, CHR 0x20, CHR 0x85, CHR 0xA0]"

text \<open>\<open>s.strip()\<close>.\<close>

definition strip :: "string \<Rightarrow> string" where
  "strip s = strip_chars whitespace s"

text \<open>\<open>s.split(sep)\<close> for a one-character separator.\<close>

fun split_on :: "char \<Rightarrow> string \<Rightarrow> string list" where
  "split_on sep [] = [[]]"
| "split_on sep (x # xs) =
     (if x = sep then [] # split_on sep xs
      else (case split_on sep xs of
              [] \<Rightarrow> [[x]]
            | w # ws \<Rightarrow> (x # w) # ws))"

text \<open>\<open>str(n)\<close> for a non-negative integer.\<close>

fun str_nat :: "nat \<Rightarrow> string" where
  "str_nat n =
     (if n < 10 then [char_of (48 + n)]
      else str_nat (n div 10) @ [char_of (48 + n mod 10)])"

declare str_nat.simps [simp del]

subsection \<open>Floats\<close>

text \<open>
  A Python \<open>float\<close> is an IEEE 754 binary64 number. A finite one is modelled by the rational
  number it denotes, and an arithmetic operation by its exact result rounded to the nearest
  double, ties to the even significand. Results of magnitude \<open>2 ^ 1024\<close> or more (where Python
  overflows) are outside the model; the quotient of two sizes below \<open>2 ^ 64\<close>, which is all
  a ZIP archive can record, is far from them.
\<close>

text \<open>\<open>n.bit_length()\<close>.\<close>

fun bit_length :: "nat \<Rightarrow> nat" where
  "bit_length n = (if n = 0 then 0 else Suc (bit_length (n div 2)))"

declare bit_length.simps [simp del]

text \<open>The power of two with an integer exponent.\<close>

definition pow2 :: "int \<Rightarrow> rat" where
  "pow2 k = (if 0 \<le> k then 2 ^ nat k else 1 / 2 ^ nat (- k))"

text \<open>The binary exponent of a positive number: the \<open>k\<close> with \<open>2 ^ k \<le> x < 2 ^ (k + 1)\<close>.\<close>

definition ilog2 :: "rat \<Rightarrow> int" where
  "ilog2 x = (if 1 \<le> x then int (bit_length (nat \<lfloor>x\<rfloor>)) - 1
              else - int (bit_length (nat (\<lceil>1 / x\<rceil> - 1))))"

text \<open>The nearest integer, a tie going to the even one.\<close>

definition round_half_even :: "rat \<Rightarrow> int" where
  "round_half_even x = (let n = \<lfloor>x\<rfloor>; r = x - of_int n
                        in if r < 1 / 2 \<or> (r = 1 / 2 \<and> even n) then n else n + 1)"

text \<open>The nearest double: 53 significant bits, and steps of \<open>2 ^ - 1074\<close> below
  \<open>2 ^ - 1022\<close>.\<close>

definition round_double :: "rat \<Rightarrow> rat" where
  "round_double x =
     (if x = 0 then 0
      else let e = max (ilog2 \<bar>x\<bar>) (- 1022) - 52
           in of_int (round_half_even (x / pow2 e)) * pow2 e)"

text \<open>\<open>x + y\<close> and \<open>x / y\<close> on floats; \<open>a / b\<close> on two \<open>int\<close>s is the correctly rounded
  quotient as well. The services divide by a compressed size or by a length only after they
  have found it nonzero.\<close>

definition float_add :: "rat \<Rightarrow> rat \<Rightarrow> rat" where
  "float_add x y = round_double (x + y)"

definition float_div :: "rat \<Rightarrow> rat \<Rightarrow> rat" where
  "float_div x y = round_double (x / y)"

text \<open>\<open>sum(xs)\<close> on a list of floats: the additions from left to right, each one rounded (so
  CPython up to 3.11 computes it; later versions carry a compensation term along).\<close>

definition float_sum :: "rat list \<Rightarrow> rat" where
  "float_sum xs = foldl float_add 0 xs"

subsection \<open>Settings\<close>

text \<open>\<open>config.Settings\<close>: the fields the file and archive services read. The storage root
  is kept as the list of components of its absolute path.\<close>

type_synonym path = "string list"

record settings =
  root_storage_path :: path
  max_file_size :: nat
  max_zip_size :: nat
  max_archive_files :: nat

definition default_settings :: settings where
  "default_settings =
     \<lparr> root_storage_path = [''app'', ''safe_storage''],
       max_file_size = 104857600,
       max_zip_size = 10485760,
       max_archive_files = 1000 \<rparr>"

section \<open>Path sanitizer\<close>

definition dangerous_chars :: string where
  "dangerous_chars = ''<>:'' @ [CHR 0x22] @ ''|?*'' @ [CHR 0x5C] @ ''/'' @ [CHR 0x00]"

text \<open>\<open>FileService._validate_filename\<close>.\<close>

definition validate_filename :: "string \<Rightarrow> error + string" where
  "validate_filename filename =
     (if filename = [] \<or> length filename > 255 then Inl InvalidName
      else
        let filename1 = foldl (\<lambda>s c. str_replace [c] ''_'' s) filename dangerous_chars;
            filename2 = str_replace ''..'' ''_'' filename1
        in if strip_chars ''._'' filename2 = [] then Inl InvalidName
           else Inr (strip filename2))"

subsection \<open>pathlib on a file system without symbolic links\<close>

text \<open>\<open>base / segment\<close>: an absolute segment replaces the base; empty and \<open>.\<close>
  components are dropped when the segment is parsed, \<open>..\<close> is kept.\<close>

definition path_join :: "path \<Rightarrow> string \<Rightarrow> path" where
  "path_join base seg =
     (let comps = filter (\<lambda>c. c \<noteq> [] \<and> c \<noteq> ''.'') (split_on CHR ''/'' seg)
      in if startswith seg ''/'' then comps else base @ comps)"

text \<open>\<open>Path.resolve()\<close>: \<open>..\<close> steps to the parent, and the parent of the root is the root.\<close>

definition resolve :: "path \<Rightarrow> path" where
  "resolve p = foldl (\<lambda>acc c. if c = ''..'' then butlast acc else acc @ [c]) [] p"

text \<open>\<open>p.relative_to(base)\<close> raises \<open>ValueError\<close> unless \<open>base\<close> is a prefix of \<open>p\<close>.\<close>

definition relative_to :: "path \<Rightarrow> path \<Rightarrow> bool" where
  "relative_to p base = prefix base p"

section \<open>Library functions taken as parameters\<close>

text \<open>Values that \<open>json.loads\<close> returns and that \<open>_xml_to_dict\<close> builds. A dict is an
  association list in insertion order; the text of a float is kept, its value is never
  inspected.\<close>

datatype pyval =
    PNone
  | PBool bool
  | PInt int
  | PFloat string
  | PStr string
  | PList "pyval list"
  | PDict "(string \<times> pyval) list"

text \<open>An \<open>xml.etree.ElementTree.Element\<close>: tag, attributes, text and children.\<close>

datatype xml = Element (el_tag: string) (el_attrib: "(string \<times> string) list")
                       (el_text: "string option") (el_children: "xml list")

text \<open>
  The standard-library and third-party calls whose code is not part of the repository:
  \<^item> \<open>sha256_hexdigest b\<close>: \<open>hashlib.sha256(b).hexdigest()\<close>;
  \<^item> \<open>utf8_decode b\<close>: \<open>b.decode('utf-8', errors='replace')\<close>;
  \<^item> \<open>utf8_len s\<close>: \<open>len(s.encode('utf-8'))\<close>;
  \<^item> \<open>json_loads s\<close>: \<open>json.loads(s)\<close>, \<open>None\<close> when it raises;
  \<^item> \<open>xmlparser_parser_attr\<close>: whether an \<open>xml.etree.ElementTree.XMLParser\<close> object has
    the attribute \<open>parser\<close>. The class written in Python has it; the class of the C
    accelerator \<open>_elementtree\<close>, which CPython puts in its place, does not;
  \<^item> \<open>xml_fromstring s\<close>: \<open>ET.fromstring(s, parser)\<close> with the secure parser,
    \<open>None\<close> when it raises;
  \<^item> \<open>fernet_encrypt b\<close>: \<open>Fernet(key).encrypt(b)\<close> under the fresh key of the call;
  \<^item> \<open>guess_type name\<close>: the first component of \<open>mimetypes.guess_type(name)\<close>.
\<close>

record library =
  sha256_hexdigest :: "bytes \<Rightarrow> string"
  utf8_decode :: "bytes \<Rightarrow> string"
  utf8_len :: "string \<Rightarrow> nat"
  json_loads :: "string \<Rightarrow> pyval option"
  xmlparser_parser_attr :: bool
  xml_fromstring :: "string \<Rightarrow> xml option"
  fernet_encrypt :: "bytes \<Rightarrow> bytes"
  guess_type :: "string \<Rightarrow> string option"

section \<open>Persistent state\<close>

text \<open>\<open>models.File\<close>; the primary key \<open>id\<close> comes from the declarative base.\<close>

record file_rec =
  f_id :: nat
  f_filename :: string
  f_original_name :: string
  f_size :: nat
  f_mime_type :: "string option"
  f_checksum :: "string option"
  f_storage_path :: path
  f_is_encrypted :: bool
  f_owner_id :: nat
  f_directory_id :: "nat option"

datatype operation_type =
    CREATE | READ | UPDATE | DELETE | MOVE | COPY
  | ARCHIVE_CREATE | ARCHIVE_EXTRACT | LOGIN | LOGOUT | PERMISSION_DENIED

text \<open>\<open>models.Operation\<close>; \<open>error_message\<close> holds the kind of the exception whose text
  the source stores.\<close>

record operation =
  op_operation_type :: operation_type
  op_details :: "string option"
  op_ip_address :: "string option"
  op_user_agent :: "string option"
  op_success :: bool
  op_error_message :: "error option"
  op_user_id :: nat
  op_file_id :: "nat option"

record user =
  u_id :: nat
  u_username :: string

text \<open>The warnings that \<open>JsonXmlService\<close> logs (messages of other levels are not kept).\<close>

datatype log_warning =
    SuspiciousPattern string              \<comment> \<open>"Suspicious pattern detected in JSON: {pattern}"\<close>
  | FormatValidationFailed string error   \<comment> \<open>"File format validation failed for {filename}: {e}"\<close>

text \<open>
  The world the services act on: regular files and directories of the file system (no
  symbolic links), the tables \<open>files\<close> and \<open>operations\<close> in insertion order, the
  sequence behind \<open>files.id\<close>, and the warnings logged so far. Commits are taken to
  succeed.
\<close>

record state =
  fs_files :: "path \<rightharpoonup> bytes"
  fs_dirs :: "path set"
  files :: "file_rec list"
  operations :: "operation list"
  next_file_id :: nat
  log_warnings :: "log_warning list"

subsection \<open>File system calls\<close>

definition path_exists :: "state \<Rightarrow> path \<Rightarrow> bool" where
  "path_exists s p = (fs_files s p \<noteq> None \<or> p \<in> fs_dirs s)"

text \<open>\<open>p.mkdir(exist_ok=True)\<close>.\<close>

definition mkdir_exist_ok :: "state \<Rightarrow> path \<Rightarrow> error + state" where
  "mkdir_exist_ok s p =
     (if p \<in> fs_dirs s then Inr s
      else if fs_files s p \<noteq> None then Inl FileExistsError
      else if butlast p \<notin> fs_dirs s then Inl FileNotFoundError
      else Inr (s\<lparr>fs_dirs := insert p (fs_dirs s)\<rparr>))"

text \<open>\<open>p.write_bytes(data)\<close>.\<close>

definition write_bytes :: "state \<Rightarrow> path \<Rightarrow> bytes \<Rightarrow> error + state" where
  "write_bytes s p data =
     (if p \<in> fs_dirs s then Inl IsADirectoryError
      else if butlast p \<notin> fs_dirs s then Inl FileNotFoundError
      else Inr (s\<lparr>fs_files := (fs_files s)(p \<mapsto> data)\<rparr>))"

text \<open>\<open>p.read_bytes()\<close>.\<close>

definition read_bytes :: "state \<Rightarrow> path \<Rightarrow> error + bytes" where
  "read_bytes s p =
     (if p \<in> fs_dirs s then Inl IsADirectoryError
      else case fs_files s p of None \<Rightarrow> Inl FileNotFoundError | Some data \<Rightarrow> Inr data)"

text \<open>\<open>p.unlink()\<close>.\<close>

definition unlink :: "state \<Rightarrow> path \<Rightarrow> error + state" where
  "unlink s p =
     (if p \<in> fs_dirs s then Inl IsADirectoryError
      else if fs_files s p = None then Inl FileNotFoundError
      else Inr (s\<lparr>fs_files := (fs_files s)(p := None)\<rparr>))"

subsection \<open>Queries\<close>

text \<open>\<open>Result.scalar_one_or_none()\<close>.\<close>

definition scalar_one_or_none :: "'a list \<Rightarrow> error + 'a option" where
  "scalar_one_or_none rows =
     (case rows of [] \<Rightarrow> Inr None | [r] \<Rightarrow> Inr (Some r) | _ \<Rightarrow> Inl MultipleResultsFound)"

text \<open>\<open>select(File).where(File.id == file_id, File.owner_id == user.id)\<close>.\<close>

definition select_by_id :: "state \<Rightarrow> user \<Rightarrow> nat \<Rightarrow> file_rec list" where
  "select_by_id s usr file_id =
     filter (\<lambda>r. f_id r = file_id \<and> f_owner_id r = u_id usr) (files s)"

text \<open>The duplicate query of \<open>create_file\<close>: same original name, owner and directory.\<close>

definition select_by_name :: "state \<Rightarrow> user \<Rightarrow> string \<Rightarrow> nat option \<Rightarrow> file_rec list" where
  "select_by_name s usr filename directory_id =
     filter (\<lambda>r. f_original_name r = filename \<and> f_owner_id r = u_id usr
                 \<and> f_directory_id r = directory_id) (files s)"

section \<open>Operation auditor\<close>

text \<open>\<open>OperationService.log_operation\<close>: appends one row.\<close>

definition log_operation ::
  "state \<Rightarrow> user \<Rightarrow> operation_type \<Rightarrow> string \<Rightarrow> nat option \<Rightarrow> string option
     \<Rightarrow> bool \<Rightarrow> error option \<Rightarrow> state" where
  "log_operation s usr operation_type details file_id ip_address success error_message =
     s\<lparr>operations := operations s @
         [\<lparr> op_operation_type = operation_type,
            op_details = Some details,
            op_ip_address = ip_address,
            op_user_agent = None,
            op_success = success,
            op_error_message = error_message,
            op_user_id = u_id usr,
            op_file_id = file_id \<rparr>]\<rparr>"

section \<open>Checksum\<close>

text \<open>The chunks that \<open>iter(lambda: f.read(n), b"")\<close> yields.\<close>

function read_chunks :: "nat \<Rightarrow> bytes \<Rightarrow> bytes list" where
  "read_chunks n data =
     (if n = 0 \<or> data = [] then [] else take n data # read_chunks n (drop n data))"
  by pat_completeness auto
termination
  by (relation "measure (\<lambda>(n, data). length data)") auto

declare read_chunks.simps [simp del]

text \<open>\<open>CryptoService.calculate_file_checksum\<close>: updating the hash chunk by chunk hashes
  the concatenation of the chunks.\<close>

definition calculate_file_checksum :: "library \<Rightarrow> state \<Rightarrow> path \<Rightarrow> error + string" where
  "calculate_file_checksum lib s p =
     (case read_bytes s p of
        Inl e \<Rightarrow> Inl e
      | Inr data \<Rightarrow> Inr (sha256_hexdigest lib (concat (read_chunks 4096 data))))"

section \<open>JSON and XML inspection\<close>

definition max_json_size :: nat where "max_json_size = 10 * 1024 * 1024"
definition max_xml_size :: nat where "max_xml_size = 10 * 1024 * 1024"
definition max_json_depth :: nat where "max_json_depth = 100"
definition max_xml_elements :: nat where "max_xml_elements = 10000"

text \<open>\<open>max(values + [depth])\<close>.\<close>

definition max_with :: "nat list \<Rightarrow> nat \<Rightarrow> nat" where
  "max_with values depth = fold max values depth"

text \<open>\<open>JsonXmlService._get_json_depth\<close>, with the depth reached so far as the second
  argument.\<close>

primrec get_json_depth :: "pyval \<Rightarrow> nat \<Rightarrow> nat" where
  "get_json_depth PNone = (\<lambda>depth. depth)"
| "get_json_depth (PBool b) = (\<lambda>depth. depth)"
| "get_json_depth (PInt i) = (\<lambda>depth. depth)"
| "get_json_depth (PFloat f) = (\<lambda>depth. depth)"
| "get_json_depth (PStr s) = (\<lambda>depth. depth)"
| "get_json_depth (PList items) = (\<lambda>depth.
     if depth > max_json_depth then depth
     else max_with (map (\<lambda>g. g (depth + 1)) (map get_json_depth items)) depth)"
| "get_json_depth (PDict kvs) = (\<lambda>depth.
     if depth > max_json_depth then depth
     else max_with (map (\<lambda>kg. snd kg (depth + 1)) (map (map_prod id get_json_depth) kvs)) depth)"

definition suspicious_patterns :: "string list" where
  "suspicious_patterns =
     [''<script'', ''</script>'', ''javascript:'', ''data:'',
      ''eval('', ''setTimeout('', ''setInterval('',
      ''__import__'', ''exec('', ''eval('']"

text \<open>\<open>check_value\<close> inside \<open>_validate_json_security\<close>: the warnings it logs, in order.
  It has no \<open>raise\<close>.\<close>

primrec check_value :: "pyval \<Rightarrow> log_warning list" where
  "check_value PNone = []"
| "check_value (PBool b) = []"
| "check_value (PInt i) = []"
| "check_value (PFloat f) = []"
| "check_value (PStr obj) =
     map SuspiciousPattern (filter (\<lambda>pattern. contains pattern (lower obj)) suspicious_patterns)"
| "check_value (PList items) = concat (map check_value items)"
| "check_value (PDict kvs) = concat (map snd (map (map_prod id check_value) kvs))"

definition validate_json_security :: "pyval \<Rightarrow> log_warning list" where
  "validate_json_security data = check_value data"

text \<open>\<open>JsonXmlService.safe_load_json\<close>: the data and the warnings of the pattern scan, or the
  error raised.\<close>

definition safe_load_json :: "library \<Rightarrow> string \<Rightarrow> error + (pyval \<times> log_warning list)" where
  "safe_load_json lib content =
     (let content_size = utf8_len lib content in
      if content_size > max_json_size then Inl JsonTooLarge
      else case json_loads lib content of
        None \<Rightarrow> Inl JsonDecodeError
      | Some data \<Rightarrow>
          let max_depth = get_json_depth data 0 in
          if max_depth > max_json_depth then Inl JsonTooDeep
          else Inr (data, validate_json_security data))"

text \<open>\<open>len(list(root.iter()))\<close>.\<close>

fun element_count :: "xml \<Rightarrow> nat" where
  "element_count (Element t a x cs) = 1 + sum_list (map element_count cs)"

text \<open>\<open>d[k] = v\<close> on a dict in insertion order.\<close>

fun dict_set :: "(string \<times> pyval) list \<Rightarrow> string \<Rightarrow> pyval \<Rightarrow> (string \<times> pyval) list" where
  "dict_set [] k v = [(k, v)]"
| "dict_set ((k', v') # d) k v = (if k' = k then (k, v) # d else (k', v') # dict_set d k v)"

text \<open>The body of the loop over the children in \<open>_xml_to_dict\<close>.\<close>

definition add_child :: "(string \<times> pyval) list \<Rightarrow> string \<times> pyval \<Rightarrow> (string \<times> pyval) list" where
  "add_child result child =
     (case map_of result (fst child) of
        None \<Rightarrow> dict_set result (fst child) (snd child)
      | Some (PList l) \<Rightarrow> dict_set result (fst child) (PList (l @ [snd child]))
      | Some v \<Rightarrow> dict_set result (fst child) (PList [v, snd child]))"

text \<open>\<open>JsonXmlService._xml_to_dict\<close>.\<close>

fun xml_to_dict :: "xml \<Rightarrow> pyval" where
  "xml_to_dict (Element t a x cs) =
     (let result0 = (if a \<noteq> [] then [(''@attributes'', PDict (map (\<lambda>kv. (fst kv, PStr (snd kv))) a))]
                     else []);
          txt = (case x of None \<Rightarrow> [] | Some s \<Rightarrow> strip s)
      in if txt \<noteq> [] \<and> cs = [] then PStr txt
         else
           let result1 = (if txt \<noteq> [] then dict_set result0 ''#text'' (PStr txt) else result0);
               result2 = foldl add_child result1 (map (\<lambda>c. (el_tag c, xml_to_dict c)) cs)
           in if result2 = [] then PNone else PDict result2)"

text \<open>\<open>JsonXmlService._create_secure_xml_parser\<close>: \<open>SecureXMLParser.__init__\<close> calls
  \<open>super().__init__()\<close> and then assigns its handlers to \<open>self.parser.DefaultHandler\<close>,
  \<open>self.parser.ExternalEntityRefHandler\<close> and \<open>self.parser.EntityDeclHandler\<close>. Reading
  \<open>self.parser\<close> raises \<open>AttributeError\<close> when the library's parser object has no such
  attribute.\<close>

definition create_secure_xml_parser :: "library \<Rightarrow> error + unit" where
  "create_secure_xml_parser lib =
     (if xmlparser_parser_attr lib then Inr () else Inl AttributeError)"

text \<open>\<open>JsonXmlService.safe_load_xml\<close>; \<open>_validate_xml_security\<close> is the JSON scan.\<close>

definition safe_load_xml :: "library \<Rightarrow> string \<Rightarrow> error + (pyval \<times> log_warning list)" where
  "safe_load_xml lib content =
     (let content_size = utf8_len lib content in
      if content_size > max_xml_size then Inl XmlTooLarge
      else case create_secure_xml_parser lib of
        Inl e \<Rightarrow> Inl e
      | Inr parser \<Rightarrow>
          (case xml_fromstring lib content of
             None \<Rightarrow> Inl XmlParseError
           | Some root_el \<Rightarrow>
               if element_count root_el > max_xml_elements then Inl XmlTooManyElements
               else let xml_dict = xml_to_dict root_el
                    in Inr (xml_dict, validate_json_security xml_dict)))"

text \<open>\<open>JsonXmlService.validate_file_format\<close>: every exception becomes \<open>False\<close> and a
  warning.\<close>

definition validate_file_format :: "library \<Rightarrow> state \<Rightarrow> string \<Rightarrow> string \<Rightarrow> bool \<times> state" where
  "validate_file_format lib s filename content =
     (if endswith (lower filename) ''.json'' then
        (case safe_load_json lib content of
           Inr (data, ws) \<Rightarrow> (True, s\<lparr>log_warnings := log_warnings s @ ws\<rparr>)
         | Inl e \<Rightarrow> (False, s\<lparr>log_warnings := log_warnings s @ [FormatValidationFailed filename e]\<rparr>))
      else if endswith (lower filename) ''.xml'' then
        (case safe_load_xml lib content of
           Inr (data, ws) \<Rightarrow> (True, s\<lparr>log_warnings := log_warnings s @ ws\<rparr>)
         | Inl e \<Rightarrow> (False, s\<lparr>log_warnings := log_warnings s @ [FormatValidationFailed filename e]\<rparr>))
      else (True, s))"

section \<open>File store\<close>

text \<open>\<open>self.root_path / f"user_{user.id}"\<close>.\<close>

definition user_dir :: "settings \<Rightarrow> user \<Rightarrow> path" where
  "user_dir cfg usr = path_join (root_storage_path cfg) (''user_'' @ str_nat (u_id usr))"

text \<open>\<open>FileService._get_user_storage_path\<close>.\<close>

definition get_user_storage_path :: "settings \<Rightarrow> state \<Rightarrow> user \<Rightarrow> error + (state \<times> path)" where
  "get_user_storage_path cfg s usr =
     (case mkdir_exist_ok s (user_dir cfg usr) of
        Inl e \<Rightarrow> Inl e
      | Inr s' \<Rightarrow> Inr (s', user_dir cfg usr))"

text \<open>\<open>FileService._get_safe_file_path\<close>.\<close>

definition get_safe_file_path ::
  "settings \<Rightarrow> state \<Rightarrow> user \<Rightarrow> string \<Rightarrow> state \<times> (error + path)" where
  "get_safe_file_path cfg s usr filename =
     (case validate_filename filename of
        Inl e \<Rightarrow> (s, Inl e)
      | Inr sanitized_filename \<Rightarrow>
          (case get_user_storage_path cfg s usr of
             Inl e \<Rightarrow> (s, Inl e)
           | Inr (s', user_storage) \<Rightarrow>
               let file_path = resolve (path_join user_storage sanitized_filename)
               in if relative_to file_path (resolve user_storage) then (s', Inr file_path)
                  else (s', Inl PathTraversal)))"

text \<open>\<open>Path.name\<close>.\<close>

definition path_name :: "path \<Rightarrow> string" where
  "path_name p = (if p = [] then [] else last p)"

definition str_bool :: "bool \<Rightarrow> string" where
  "str_bool b = (if b then ''True'' else ''False'')"

text \<open>The names whose content \<open>create_file\<close> hands to the format validator.\<close>

definition format_checked :: "string \<Rightarrow> bool" where
  "format_checked filename \<longleftrightarrow>
     endswith (lower filename) ''.json'' \<or> endswith (lower filename) ''.xml''"

text \<open>The format gate of \<open>create_file\<close>: whether the validator accepted, and the state with
  the warnings it logged.\<close>

definition check_format :: "library \<Rightarrow> state \<Rightarrow> string \<Rightarrow> bytes \<Rightarrow> bool \<times> state" where
  "check_format lib s filename content =
     (if format_checked filename
      then validate_file_format lib s filename (utf8_decode lib content)
      else (True, s))"

text \<open>\<open>final_content\<close> of \<open>create_file\<close>: the ciphertext under a fresh key when
  \<open>encrypt\<close> is set.\<close>

definition final_content :: "library \<Rightarrow> bool \<Rightarrow> bytes \<Rightarrow> bytes" where
  "final_content lib encrypt content = (if encrypt then fernet_encrypt lib content else content)"

text \<open>The \<open>File(...)\<close> that \<open>create_file\<close> builds, with the id the commit gives it.\<close>

definition new_file ::
  "library \<Rightarrow> state \<Rightarrow> user \<Rightarrow> string \<Rightarrow> bytes \<Rightarrow> bool \<Rightarrow> nat option \<Rightarrow> path \<Rightarrow> string
     \<Rightarrow> file_rec" where
  "new_file lib s usr filename content encrypt directory_id file_path checksum =
     \<lparr> f_id = next_file_id s,
       f_filename = path_name file_path,
       f_original_name = filename,
       f_size = length content,
       f_mime_type = guess_type lib filename,
       f_checksum = Some checksum,
       f_storage_path = file_path,
       f_is_encrypted = encrypt,
       f_owner_id = u_id usr,
       f_directory_id = directory_id \<rparr>"

text \<open>\<open>session.add(file_obj)\<close> and the commit.\<close>

definition add_file :: "state \<Rightarrow> file_rec \<Rightarrow> state" where
  "add_file s file_obj =
     s\<lparr>files := files s @ [file_obj], next_file_id := Suc (next_file_id s)\<rparr>"

text \<open>The \<open>try\<close> block of \<open>FileService.create_file\<close>. What was done to the file system
  before an exception stays done.\<close>

definition create_file_try ::
  "library \<Rightarrow> settings \<Rightarrow> state \<Rightarrow> user \<Rightarrow> string \<Rightarrow> bytes \<Rightarrow> bool \<Rightarrow> nat option
     \<Rightarrow> state \<times> (error + file_rec)" where
  "create_file_try lib cfg s usr filename content encrypt directory_id =
     (if length content > max_file_size cfg then (s, Inl SizeLimitExceeded)
      else case check_format lib s filename content of
        (False, s1) \<Rightarrow> (s1, Inl InvalidFormat)
      | (True, s1) \<Rightarrow>
          (case get_safe_file_path cfg s1 usr filename of
             (s2, Inl e) \<Rightarrow> (s2, Inl e)
           | (s2, Inr file_path) \<Rightarrow>
               (case scalar_one_or_none (select_by_name s2 usr filename directory_id) of
                  Inl e \<Rightarrow> (s2, Inl e)
                | Inr (Some existing) \<Rightarrow> (s2, Inl DuplicateName)
                | Inr None \<Rightarrow>
                    (case write_bytes s2 file_path (final_content lib encrypt content) of
                       Inl e \<Rightarrow> (s2, Inl e)
                     | Inr s3 \<Rightarrow>
                         (case calculate_file_checksum lib s3 file_path of
                            Inl e \<Rightarrow> (s3, Inl e)
                          | Inr checksum \<Rightarrow>
                              (add_file s3 (new_file lib s3 usr filename content encrypt
                                              directory_id file_path checksum),
                               Inr (new_file lib s3 usr filename content encrypt
                                      directory_id file_path checksum)))))))"

text \<open>\<open>FileService.create_file\<close>: the \<open>try\<close> block, then the audit entry of the success
  or of the failure, which is raised again.\<close>

definition create_file ::
  "library \<Rightarrow> settings \<Rightarrow> state \<Rightarrow> user \<Rightarrow> string \<Rightarrow> bytes \<Rightarrow> bool \<Rightarrow> nat option
     \<Rightarrow> string option \<Rightarrow> state \<times> (error + file_rec)" where
  "create_file lib cfg s usr filename content encrypt directory_id ip_address =
     (case create_file_try lib cfg s usr filename content encrypt directory_id of
        (s', Inr file_obj) \<Rightarrow>
          (log_operation s' usr CREATE
             (''Created file: '' @ filename @ '' (encrypted: '' @ str_bool encrypt @ '')'')
             (Some (f_id file_obj)) ip_address True None,
           Inr file_obj)
      | (s', Inl e) \<Rightarrow>
          (log_operation s' usr CREATE (''Failed to create file: '' @ filename)
             None ip_address False (Some e),
           Inl e))"

text \<open>The \<open>try\<close> block of \<open>FileService.read_file\<close>.\<close>

definition read_file_try :: "state \<Rightarrow> user \<Rightarrow> nat \<Rightarrow> error + (file_rec \<times> bytes)" where
  "read_file_try s usr file_id =
     (case scalar_one_or_none (select_by_id s usr file_id) of
        Inl e \<Rightarrow> Inl e
      | Inr None \<Rightarrow> Inl NotFound
      | Inr (Some file_obj) \<Rightarrow>
          if \<not> path_exists s (f_storage_path file_obj) then Inl NotFound
          else case read_bytes s (f_storage_path file_obj) of
            Inl e \<Rightarrow> Inl e
          | Inr content \<Rightarrow>
              if f_is_encrypted file_obj then Inl NotSupported
              else Inr (file_obj, content))"

text \<open>\<open>FileService.read_file\<close>.\<close>

definition read_file ::
  "state \<Rightarrow> user \<Rightarrow> nat \<Rightarrow> string option \<Rightarrow> state \<times> (error + (file_rec \<times> bytes))" where
  "read_file s usr file_id ip_address =
     (case read_file_try s usr file_id of
        Inr (file_obj, content) \<Rightarrow>
          (log_operation s usr READ (''Read file: '' @ f_original_name file_obj)
             (Some (f_id file_obj)) ip_address True None,
           Inr (file_obj, content))
      | Inl e \<Rightarrow>
          (log_operation s usr READ (''Failed to read file ID: '' @ str_nat file_id)
             None ip_address False (Some e),
           Inl e))"

text \<open>The row with the primary key of \<open>file_obj\<close> takes its new attributes at commit.\<close>

definition flush_file :: "state \<Rightarrow> file_rec \<Rightarrow> state" where
  "flush_file s file_obj =
     s\<lparr>files := map (\<lambda>r. if f_id r = f_id file_obj then file_obj else r) (files s)\<rparr>"

text \<open>The \<open>try\<close> block of \<open>FileService.update_file\<close>. When the checksum cannot be
  computed the new size is already set on the object, and the commit of the failure's audit
  entry writes it.\<close>

definition update_file_try ::
  "library \<Rightarrow> settings \<Rightarrow> state \<Rightarrow> user \<Rightarrow> nat \<Rightarrow> bytes \<Rightarrow> state \<times> (error + file_rec)" where
  "update_file_try lib cfg s usr file_id new_content =
     (case scalar_one_or_none (select_by_id s usr file_id) of
        Inl e \<Rightarrow> (s, Inl e)
      | Inr None \<Rightarrow> (s, Inl NotFound)
      | Inr (Some file_obj) \<Rightarrow>
          if length new_content > max_file_size cfg then (s, Inl SizeLimitExceeded)
          else if f_is_encrypted file_obj then (s, Inl NotSupported)
          else case write_bytes s (f_storage_path file_obj) new_content of
            Inl e \<Rightarrow> (s, Inl e)
          | Inr s1 \<Rightarrow>
              (case calculate_file_checksum lib s1 (f_storage_path file_obj) of
                 Inl e \<Rightarrow> (flush_file s1 (file_obj\<lparr>f_size := length new_content\<rparr>), Inl e)
               | Inr checksum \<Rightarrow>
                   (flush_file s1 (file_obj\<lparr>f_size := length new_content,
                                            f_checksum := Some checksum\<rparr>),
                    Inr (file_obj\<lparr>f_size := length new_content,
                                  f_checksum := Some checksum\<rparr>))))"

text \<open>\<open>FileService.update_file\<close>.\<close>

definition update_file ::
  "library \<Rightarrow> settings \<Rightarrow> state \<Rightarrow> user \<Rightarrow> nat \<Rightarrow> bytes \<Rightarrow> string option
     \<Rightarrow> state \<times> (error + file_rec)" where
  "update_file lib cfg s usr file_id new_content ip_address =
     (case update_file_try lib cfg s usr file_id new_content of
        (s', Inr file_obj) \<Rightarrow>
          (log_operation s' usr UPDATE (''Updated file: '' @ f_original_name file_obj)
             (Some (f_id file_obj)) ip_address True None,
           Inr file_obj)
      | (s', Inl e) \<Rightarrow>
          (log_operation s' usr UPDATE (''Failed to update file ID: '' @ str_nat file_id)
             None ip_address False (Some e),
           Inl e))"

text \<open>\<open>session.delete(file_obj)\<close> and the commit: the row goes, and with it the rows of
  \<open>operations\<close> that refer to it (the relationship cascades).\<close>

definition delete_row :: "state \<Rightarrow> file_rec \<Rightarrow> state" where
  "delete_row s file_obj =
     s\<lparr>files := filter (\<lambda>r. f_id r \<noteq> f_id file_obj) (files s),
       operations := filter (\<lambda>p. op_file_id p \<noteq> Some (f_id file_obj)) (operations s)\<rparr>"

text \<open>The \<open>try\<close> block of \<open>FileService.delete_file\<close>; its only \<open>return\<close> is
  \<open>return True\<close>.\<close>

definition delete_file_try :: "state \<Rightarrow> user \<Rightarrow> nat \<Rightarrow> state \<times> (error + (bool \<times> string))" where
  "delete_file_try s usr file_id =
     (case scalar_one_or_none (select_by_id s usr file_id) of
        Inl e \<Rightarrow> (s, Inl e)
      | Inr None \<Rightarrow> (s, Inl NotFound)
      | Inr (Some file_obj) \<Rightarrow>
          (case (if path_exists s (f_storage_path file_obj)
                 then unlink s (f_storage_path file_obj) else Inr s) of
             Inl e \<Rightarrow> (s, Inl e)
           | Inr s1 \<Rightarrow> (delete_row s1 file_obj, Inr (True, f_original_name file_obj))))"

text \<open>\<open>FileService.delete_file\<close>.\<close>

definition delete_file ::
  "state \<Rightarrow> user \<Rightarrow> nat \<Rightarrow> string option \<Rightarrow> state \<times> (error + bool)" where
  "delete_file s usr file_id ip_address =
     (case delete_file_try s usr file_id of
        (s', Inr (result, filename)) \<Rightarrow>
          (log_operation s' usr DELETE (''Deleted file: '' @ filename) None ip_address True None,
           Inr result)
      | (s', Inl e) \<Rightarrow>
          (log_operation s' usr DELETE (''Failed to delete file ID: '' @ str_nat file_id)
             None ip_address False (Some e),
           Inl e))"

section \<open>Archive validator and extractor\<close>

text \<open>A \<open>zipfile.ZipInfo\<close> of the central directory, with what \<open>zipf.read\<close> does for the
  entry: the bytes it returns, or the exception it raises (\<open>BadZipFile\<close> on a bad header or
  checksum, \<open>ZlibError\<close> on a damaged stream).\<close>

record zip_info =
  zi_filename :: string
  zi_file_size :: nat
  zi_compress_size :: nat
  zi_payload :: "error + bytes"

text \<open>\<open>ZipInfo.is_dir()\<close>.\<close>

definition is_dir :: "zip_info \<Rightarrow> bool" where
  "is_dir file_info = endswith (zi_filename file_info) ''/''"

text \<open>\<open>file_info.file_size / file_info.compress_size\<close>: the quotient of two \<open>int\<close>s, a
  float.\<close>

definition ratio :: "zip_info \<Rightarrow> rat" where
  "ratio file_info =
     float_div (of_nat (zi_file_size file_info)) (of_nat (zi_compress_size file_info))"

text \<open>The loop of \<open>ArchiveService._validate_zip_archive\<close>, carrying
  \<open>total_uncompressed_size\<close>, \<open>file_count\<close> and \<open>compression_ratios\<close>.\<close>

fun validate_zip_entries ::
  "settings \<Rightarrow> zip_info list \<Rightarrow> nat \<Rightarrow> nat \<Rightarrow> rat list \<Rightarrow> error + (nat \<times> nat \<times> rat list)" where
  "validate_zip_entries cfg [] total_uncompressed_size file_count compression_ratios =
     Inr (total_uncompressed_size, file_count, compression_ratios)"
| "validate_zip_entries cfg (file_info # rest) total_uncompressed_size file_count compression_ratios =
     (if is_dir file_info
      then validate_zip_entries cfg rest total_uncompressed_size file_count compression_ratios
      else if zi_file_size file_info > max_file_size cfg then Inl EntryTooLarge
      else if zi_compress_size file_info > 0 \<and> ratio file_info > 100
      then Inl SuspiciousCompressionRatio
      else if contains ''..'' (zi_filename file_info) \<or> startswith (zi_filename file_info) ''/''
      then Inl DangerousPath
      else validate_zip_entries cfg rest
             (total_uncompressed_size + zi_file_size file_info)
             (file_count + 1)
             (if zi_compress_size file_info > 0
              then compression_ratios @ [ratio file_info] else compression_ratios))"

text \<open>\<open>ArchiveService._validate_zip_archive\<close>.\<close>

definition validate_zip_archive :: "settings \<Rightarrow> zip_info list \<Rightarrow> error + unit" where
  "validate_zip_archive cfg infolist =
     (case validate_zip_entries cfg infolist 0 0 [] of
        Inl e \<Rightarrow> Inl e
      | Inr (total_uncompressed_size, file_count, compression_ratios) \<Rightarrow>
          if file_count > max_archive_files cfg then Inl ArchiveTooManyFiles
          else if total_uncompressed_size > max_zip_size cfg then Inl ArchiveTooLarge
          else if compression_ratios \<noteq> []
                  \<and> float_div (float_sum compression_ratios)
                        (of_nat (length compression_ratios)) > 50
          then Inl SuspiciousCompressionRatio
          else Inr ())"





section \<open>The limits as the specification words them\<close>

text \<open>The nesting depth of a JSON value: scalars and empty containers have depth 0, a
  container is one level deeper than its deepest member.\<close>

primrec nesting_depth :: "pyval \<Rightarrow> nat" where
  "nesting_depth PNone = 0"
| "nesting_depth (PBool b) = 0"
| "nesting_depth (PInt i) = 0"
| "nesting_depth (PFloat f) = 0"
| "nesting_depth (PStr s) = 0"
| "nesting_depth (PList items) = max_with (map Suc (map nesting_depth items)) 0"
| "nesting_depth (PDict kvs) =
     max_with (map (\<lambda>kn. Suc (snd kn)) (map (map_prod id nesting_depth) kvs)) 0"

text \<open>A text parses within the configured limits: as JSON for a \<open>.json\<close> name (size and
  nesting depth), as XML otherwise (size and number of elements).\<close>

definition parses_within_limits :: "library \<Rightarrow> string \<Rightarrow> string \<Rightarrow> bool" where
  "parses_within_limits lib filename content =
     (if endswith (lower filename) ''.json''
      then utf8_len lib content \<le> max_json_size
           \<and> (case json_loads lib content of
                 None \<Rightarrow> False
               | Some data \<Rightarrow> nesting_depth data \<le> max_json_depth)
      else utf8_len lib content \<le> max_xml_size
           \<and> (case xml_fromstring lib content of
                 None \<Rightarrow> False
               | Some root_el \<Rightarrow> element_count root_el \<le> max_xml_elements))"

text \<open>What the validator hands to the pattern scan: the parsed JSON, or the dict made of the
  parsed XML.\<close>

definition parsed_value :: "library \<Rightarrow> string \<Rightarrow> string \<Rightarrow> pyval option" where
  "parsed_value lib filename content =
     (if endswith (lower filename) ''.json'' then json_loads lib content
      else map_option xml_to_dict (xml_fromstring lib content))"

section \<open>Concrete inputs\<close>

text \<open>An archive entry that tries to leave the extraction directory.\<close>

definition passwd_entry :: zip_info where
  "passwd_entry = \<lparr> zi_filename = ''../../etc/passwd'', zi_file_size = 10,
                     zi_compress_size = 10, zi_payload = Inr ''root:x:0:0'' \<rparr>"

text \<open>A stand-in for the library calls, to run the services on concrete inputs: digests and
  ciphertexts are written out symbolically, the JSON parser and the XML parser know one
  document each, and the XML parser object is the one of CPython's accelerator, without the
  attribute \<open>parser\<close>.\<close>

definition script_json :: string where
  \<open>script_json = ''{"note": "<script>alert(1)</script>"}''\<close>

definition script_xml :: string where
  \<open>script_xml = ''<note>javascript:alert(1)</note>''\<close>

definition sample_library :: library where
  "sample_library =
     \<lparr> sha256_hexdigest = (\<lambda>b. ''sha256('' @ b @ '')''),
       utf8_decode = (\<lambda>b. b),
       utf8_len = length,
       json_loads = (\<lambda>s. if s = script_json
                          then Some (PDict [(''note'', PStr ''<script>alert(1)</script>'')])
                          else None),
       xmlparser_parser_attr = False,
       xml_fromstring = (\<lambda>s. if s = script_xml
                              then Some (Element ''note'' [] (Some ''javascript:alert(1)'') [])
                              else None),
       fernet_encrypt = (\<lambda>b. ''gAAAAA'' @ b),
       guess_type = (\<lambda>n. None) \<rparr>"

text \<open>A store with the storage root in place and nothing else.\<close>

definition fresh_store :: state where
  "fresh_store =
     \<lparr> fs_files = Map.empty,
       fs_dirs = {[], [''app''], [''app'', ''safe_storage'']},
       files = [], operations = [], next_file_id = 1, log_warnings = [] \<rparr>"

definition alice :: user where
  "alice = \<lparr> u_id = 1, u_username = ''alice'' \<rparr>"



text \<open>The record of \<open>a.txt\<close> with content \<open>hello\<close>, as \<open>alice\<close>'s first file.\<close>

definition hello_file :: file_rec where
  "hello_file =
     \<lparr> f_id = 1, f_filename = ''a.txt'', f_original_name = ''a.txt'', f_size = 5,
       f_mime_type = None, f_checksum = Some ''sha256(hello)'',
       f_storage_path = [''app'', ''safe_storage'', ''user_1'', ''a.txt''],
       f_is_encrypted = False, f_owner_id = 1, f_directory_id = None \<rparr>"

text \<open>The store after \<open>alice\<close> created \<open>a.txt\<close> with content \<open>hello\<close>.\<close>

definition hello_store :: state where
  "hello_store =
     fst (create_file sample_library default_settings fresh_store alice ''a.txt'' ''hello''
            False None None)"

text \<open>\<open>alice\<close> creates \<open>a.txt\<close> a second time, with content \<open>bye\<close>, in directory 5.\<close>

definition twin_store :: state where
  "twin_store =
     fst (create_file sample_library default_settings hello_store alice ''a.txt'' ''bye''
            False (Some 5) None)"

text \<open>Two display names that sanitize to the same stored name: \<open>alice\<close> creates \<open>a/b\<close>
  (encrypted), then \<open>a_b\<close>, then deletes \<open>a_b\<close>.\<close>

definition shared_store1 :: state where
  "shared_store1 =
     fst (create_file sample_library default_settings fresh_store alice ''a/b'' ''hello''
            True None None)"

definition shared_store2 :: state where
  "shared_store2 =
     fst (create_file sample_library default_settings shared_store1 alice ''a_b'' ''bye''
            False None None)"

definition shared_store3 :: state where
  "shared_store3 = fst (delete_file shared_store2 alice 2 None)"

text \<open>The settings with a file size limit of four bytes.\<close>

definition tiny_settings :: settings where
  "tiny_settings = default_settings\<lparr>max_file_size := 4\<rparr>"

text \<open>The record of the encrypted file \<open>a/b\<close>.\<close>

definition secret_file :: file_rec where
  "secret_file =
     \<lparr> f_id = 1, f_filename = ''a_b'', f_original_name = ''a/b'', f_size = 5,
       f_mime_type = None, f_checksum = Some ''sha256(gAAAAAhello)'',
       f_storage_path = [''app'', ''safe_storage'', ''user_1'', ''a_b''],
       f_is_encrypted = True, f_owner_id = 1, f_directory_id = None \<rparr>"

text \<open>The store after \<open>alice\<close> created \<open>note.json\<close> with the sample document.\<close>

definition note_store :: state where
  "note_store =
     fst (create_file sample_library default_settings fresh_store alice ''note.json''
            script_json False None None)"

text \<open>\<open>alice\<close> creates \<open>a/b\<close> and then \<open>a_b\<close>, both in the clear.\<close>

definition slash_store :: state where
  "slash_store =
     fst (create_file sample_library default_settings fresh_store alice ''a/b'' ''hello''
            False None None)"

definition underscore_store :: state where
  "underscore_store =
     fst (create_file sample_library default_settings slash_store alice ''a_b'' ''bye''
            False None None)"

section \<open>Well-formed stores\<close>

text \<open>The sequence behind \<open>files.id\<close> is ahead of every id in the table, so that a new row
  gets an id no other row has.\<close>

definition ids_fresh :: "state \<Rightarrow> bool" where
  "ids_fresh s \<longleftrightarrow> (\<forall>r\<in>set (files s). f_id r < next_file_id s)"

section \<open>Properties of the floats\<close>




lemma pow2_powi: "pow2 k = 2 powi k"
  by (simp add: pow2_def power_int_def inverse_eq_divide power_one_over)




lemma pow2_strict_mono: "a < b \<Longrightarrow> pow2 a < pow2 b"
  by (simp add: pow2_powi power_int_strict_increasing)








lemma pow2_nonzero [simp]: "pow2 k \<noteq> 0"
  by (simp add: pow2_powi)







section \<open>Properties of the archive validator\<close>

lemma validate_zip_entries_ok_iff:
  "(\<exists>x. validate_zip_entries cfg zs t c rs = Inr x) \<longleftrightarrow>
   (\<forall>z\<in>set zs. \<not> is_dir z \<longrightarrow>
      zi_file_size z \<le> max_file_size cfg
      \<and> \<not> (zi_compress_size z > 0 \<and> ratio z > 100)
      \<and> \<not> (contains ''..'' (zi_filename z) \<or> startswith (zi_filename z) ''/''))"
  by (induction zs arbitrary: t c rs) auto

lemma validate_zip_entries_errors:
  "validate_zip_entries cfg zs t c rs = Inl e \<Longrightarrow>
   e = EntryTooLarge \<or> e = SuspiciousCompressionRatio \<or> e = DangerousPath"
  by (induction zs arbitrary: t c rs) (auto split: if_splits)

lemma validate_zip_entries_dangerous:
  "\<lbrakk>z \<in> set zs; \<not> is_dir z;
    contains ''..'' (zi_filename z) \<or> startswith (zi_filename z) ''/'';
    \<forall>y\<in>set zs. \<not> is_dir y \<longrightarrow> zi_file_size y \<le> max_file_size cfg
        \<and> (zi_compress_size y > 0 \<longrightarrow> ratio y \<le> 100)\<rbrakk>
   \<Longrightarrow> validate_zip_entries cfg zs t c rs = Inl DangerousPath"
  by (induction zs arbitrary: t c rs) (auto simp: not_less)





lemma validate_zip_archive_errors_of_entries:
  "validate_zip_entries cfg zs 0 0 [] = Inl e \<Longrightarrow> validate_zip_archive cfg zs = Inl e"
  by (simp add: validate_zip_archive_def)


text \<open>
  C3 (as the code has it). An archive with a non-directory entry whose name contains \<open>..\<close>
  or begins with \<open>/\<close> never passes \<open>_validate_zip_archive\<close>: it fails with
  \<open>EntryTooLarge\<close>, \<open>SuspiciousCompressionRatio\<close> or \<open>DangerousPath\<close>, whichever check
  fires first, and with \<open>DangerousPath\<close> whenever no non-directory entry exceeds the size
  limit or the ratio 100. Directory entries are skipped by the validator.
\<close>

theorem dangerous_entry_rejected:
  assumes "z \<in> set infolist" and "\<not> is_dir z"
    and "contains ''..'' (zi_filename z) \<or> startswith (zi_filename z) ''/''"
  shows "(validate_zip_archive cfg infolist = Inl EntryTooLarge
          \<or> validate_zip_archive cfg infolist = Inl SuspiciousCompressionRatio
          \<or> validate_zip_archive cfg infolist = Inl DangerousPath)
       \<and> ((\<forall>y\<in>set infolist. \<not> is_dir y \<longrightarrow> zi_file_size y \<le> max_file_size cfg
               \<and> (zi_compress_size y > 0 \<longrightarrow> ratio y \<le> 100))
            \<longrightarrow> validate_zip_archive cfg infolist = Inl DangerousPath)"
proof (intro conjI impI)
  have "\<not> (\<exists>x. validate_zip_entries cfg infolist 0 0 [] = Inr x)"
    using assms unfolding validate_zip_entries_ok_iff by blast
  then obtain e where e: "validate_zip_entries cfg infolist 0 0 [] = Inl e"
    by (cases "validate_zip_entries cfg infolist 0 0 []") auto
  from validate_zip_entries_errors[OF e] validate_zip_archive_errors_of_entries[OF e]
  show "validate_zip_archive cfg infolist = Inl EntryTooLarge
          \<or> validate_zip_archive cfg infolist = Inl SuspiciousCompressionRatio
          \<or> validate_zip_archive cfg infolist = Inl DangerousPath"
    by auto
next
  assume "\<forall>y\<in>set infolist. \<not> is_dir y \<longrightarrow> zi_file_size y \<le> max_file_size cfg
               \<and> (zi_compress_size y > 0 \<longrightarrow> ratio y \<le> 100)"
  with assms have "validate_zip_entries cfg infolist 0 0 [] = Inl DangerousPath"
    by (intro validate_zip_entries_dangerous)
  then show "validate_zip_archive cfg infolist = Inl DangerousPath"
    by (rule validate_zip_archive_errors_of_entries)
qed


theorem dangerous_entry_rejected_witness:
  "(passwd_entry \<in> set [passwd_entry] \<and> \<not> is_dir passwd_entry
    \<and> (contains ''..'' (zi_filename passwd_entry) \<or> startswith (zi_filename passwd_entry) ''/'')
    \<and> zi_file_size passwd_entry \<le> max_file_size default_settings
    \<and> ratio passwd_entry \<le> 100)
   \<and> validate_zip_archive default_settings [passwd_entry] = Inl DangerousPath"
proof -
  have hr: "ratio passwd_entry \<le> 100" by code_simp
  have hs: "zi_file_size passwd_entry \<le> max_file_size default_settings"
    by (simp add: passwd_entry_def default_settings_def)
  from hs hr have h5: "zi_file_size passwd_entry \<le> max_file_size default_settings
      \<and> ratio passwd_entry \<le> 100" by simp
  have h1: "passwd_entry \<in> set [passwd_entry]" by simp
  have h2: "\<not> is_dir passwd_entry"
    by (simp add: is_dir_def endswith_def passwd_entry_def suffix_to_prefix)
  have h3: "contains ''..'' (zi_filename passwd_entry) \<or> startswith (zi_filename passwd_entry) ''/''"
    by (simp add: passwd_entry_def)
  from hs hr have h4: "\<forall>y\<in>set [passwd_entry]. \<not> is_dir y \<longrightarrow> zi_file_size y \<le> max_file_size default_settings
               \<and> (zi_compress_size y > 0 \<longrightarrow> ratio y \<le> 100)"
    by simp
  have "validate_zip_archive default_settings [passwd_entry] = Inl DangerousPath"
    using dangerous_entry_rejected[OF h1 h2 h3, of default_settings] h4 by (rule_tac conjunct2 [THEN mp])
  with h1 h2 h3 h5 show ?thesis by simp
qed

text \<open>C3 as stated fails: the ratio check of the same entry fires before the path check, and
  a directory entry is not examined at all.\<close>

theorem dangerous_path_error_counterexample:
  "validate_zip_archive default_settings
     [\<lparr> zi_filename = ''../../etc/passwd'', zi_file_size = 1000, zi_compress_size = 1,
        zi_payload = Inl BadZipFile \<rparr>] = Inl SuspiciousCompressionRatio
   \<and> validate_zip_archive default_settings
     [\<lparr> zi_filename = ''../'', zi_file_size = 0, zi_compress_size = 0,
        zi_payload = Inl BadZipFile \<rparr>] = Inr ()"
  by code_simp





section \<open>Properties of the path sanitizer\<close>

lemma str_replace_char:
  "str_replace [c] ''_'' s = map (\<lambda>x. if x = c then CHR ''_'' else x) s"
  by (induction s) auto

lemma set_replace_char_absent:
  "c \<noteq> CHR ''_'' \<Longrightarrow> c \<notin> set (str_replace [c] ''_'' s)"
  by (auto simp: str_replace_char)

lemma set_replace_char_notin:
  "x \<notin> set s \<Longrightarrow> x \<noteq> CHR ''_'' \<Longrightarrow> x \<notin> set (str_replace [c] ''_'' s)"
  by (auto simp: str_replace_char)

lemma set_replace_char_keeps:
  "x \<in> set s \<Longrightarrow> x \<noteq> c \<Longrightarrow> x \<in> set (str_replace [c] ''_'' s)"
  by (auto simp: str_replace_char)

lemma set_replace_char_hit:
  "c \<in> set s \<Longrightarrow> CHR ''_'' \<in> set (str_replace [c] ''_'' s)"
  by (auto simp: str_replace_char)

lemma foldl_replace_notin:
  "x \<notin> set s \<Longrightarrow> x \<noteq> CHR ''_'' \<Longrightarrow> x \<notin> set (foldl (\<lambda>s c. str_replace [c] ''_'' s) s cs)"
  by (induction cs arbitrary: s) (simp_all add: set_replace_char_notin)

lemma foldl_replace_absent:
  "c \<in> set cs \<Longrightarrow> c \<noteq> CHR ''_'' \<Longrightarrow> c \<notin> set (foldl (\<lambda>s c. str_replace [c] ''_'' s) s cs)"
proof (induction cs arbitrary: s)
  case Nil
  then show ?case by simp
next
  case (Cons a cs)
  show ?case
  proof (cases "c = a")
    case True
    with Cons.prems have "c \<notin> set (str_replace [a] ''_'' s)"
      by (simp add: set_replace_char_absent)
    with Cons.prems show ?thesis by (simp add: foldl_replace_notin)
  next
    case False
    with Cons show ?thesis by simp
  qed
qed

lemma foldl_replace_underscore:
  "CHR ''_'' \<in> set s \<Longrightarrow> CHR ''_'' \<notin> set cs
   \<Longrightarrow> CHR ''_'' \<in> set (foldl (\<lambda>s c. str_replace [c] ''_'' s) s cs)"
  by (induction cs arbitrary: s) (simp_all add: set_replace_char_keeps)

lemma foldl_replace_hit:
  "x \<in> set s \<Longrightarrow> x \<in> set cs \<Longrightarrow> CHR ''_'' \<notin> set cs
   \<Longrightarrow> CHR ''_'' \<in> set (foldl (\<lambda>s c. str_replace [c] ''_'' s) s cs)"
proof (induction cs arbitrary: s)
  case Nil
  then show ?case by simp
next
  case (Cons a cs)
  show ?case
  proof (cases "x = a")
    case True
    with Cons.prems have "CHR ''_'' \<in> set (str_replace [a] ''_'' s)"
      by (simp add: set_replace_char_hit)
    with Cons.prems show ?thesis by (simp add: foldl_replace_underscore)
  next
    case False
    with Cons.prems have "x \<in> set (str_replace [a] ''_'' s)" "x \<in> set cs" "CHR ''_'' \<notin> set cs"
      by (simp_all add: set_replace_char_keeps)
    with Cons.IH show ?thesis by simp
  qed
qed

lemma slash_dangerous: "CHR ''/'' \<in> set dangerous_chars" "CHR ''_'' \<notin> set dangerous_chars"
  by (simp_all add: dangerous_chars_def)

lemma prefix_dotdot: "prefix ''..'' s \<longleftrightarrow> (\<exists>t. s = CHR ''.'' # CHR ''.'' # t)"
proof (cases s)
  case Nil
  then show ?thesis by simp
next
  case (Cons a l)
  then show ?thesis by (cases l) auto
qed

lemma dotdot_hit:
  "str_replace ''..'' ''_'' (CHR ''.'' # CHR ''.'' # t) = CHR ''_'' # str_replace ''..'' ''_'' t"
  by simp

lemma dotdot_miss:
  assumes "\<not> prefix ''..'' (x # t)"
  shows "str_replace ''..'' ''_'' (x # t) = x # str_replace ''..'' ''_'' t"
proof -
  have "str_replace ''..'' ''_'' (x # t) =
          (if ''..'' \<noteq> [] \<and> prefix ''..'' (x # t)
           then ''_'' @ str_replace ''..'' ''_'' (drop (length ''..'') (x # t))
           else x # str_replace ''..'' ''_'' t)"
    by (rule str_replace.simps(2))
  with assms show ?thesis by (simp only: simp_thms if_False)
qed

declare str_replace.simps(2) [simp del]

lemma dotdot_cases:
  obtains "s = []" | t where "s = CHR ''.'' # CHR ''.'' # t"
  | x t where "s = x # t" "\<not> prefix ''..'' (x # t)"
proof (cases "prefix ''..'' s")
  case True
  then obtain t where "s = CHR ''.'' # CHR ''.'' # t" unfolding prefix_dotdot ..
  then show ?thesis by (rule that(2))
next
  case False
  show ?thesis
  proof (cases s)
    case Nil
    then show ?thesis by (rule that(1))
  next
    case (Cons x t)
    from False have "\<not> prefix ''..'' (x # t)" unfolding Cons .
    with Cons show ?thesis by (rule that(3))
  qed
qed

lemma set_str_replace_dotdot:
  "set (str_replace ''..'' ''_'' s) \<subseteq> insert CHR ''_'' (set s)"
proof (induction s rule: length_induct)
  case (1 s)
  show ?case
  proof (cases s rule: dotdot_cases)
    case 1
    then show ?thesis by simp
  next
    case (2 t)
    with 1 have "set (str_replace ''..'' ''_'' t) \<subseteq> insert CHR ''_'' (set t)" by simp
    with 2 show ?thesis by (auto simp add: dotdot_hit)
  next
    case (3 x t)
    with 1 have "set (str_replace ''..'' ''_'' t) \<subseteq> insert CHR ''_'' (set t)" by simp
    with 3 show ?thesis by (auto simp add: dotdot_miss)
  qed
qed

lemma str_replace_dotdot_keeps:
  "x \<in> set s \<Longrightarrow> x \<noteq> CHR ''.'' \<Longrightarrow> x \<in> set (str_replace ''..'' ''_'' s)"
proof (induction s rule: length_induct)
  case (1 s)
  show ?case
  proof (cases s rule: dotdot_cases)
    case 1
    with "1.prems" show ?thesis by simp
  next
    case (2 t)
    with "1.prems" have "x \<in> set t" by auto
    with 1 2 have "x \<in> set (str_replace ''..'' ''_'' t)" by simp
    with 2 show ?thesis by (simp add: dotdot_hit)
  next
    case (3 y t)
    show ?thesis
    proof (cases "x = y")
      case True
      with 3 show ?thesis by (simp add: dotdot_miss)
    next
      case False
      with "1.prems" 3 have "x \<in> set t" by auto
      with 1 3 have "x \<in> set (str_replace ''..'' ''_'' t)" by simp
      with 3 show ?thesis by (simp add: dotdot_miss)
    qed
  qed
qed

lemma str_replace_dotdot_head:
  "str_replace ''..'' ''_'' s = CHR ''.'' # u \<Longrightarrow> \<exists>t'. s = CHR ''.'' # t'"
proof (cases s rule: dotdot_cases)
  case 1
  assume "str_replace ''..'' ''_'' s = CHR ''.'' # u"
  with 1 show ?thesis by (simp add: str_replace.simps)
next
  case (2 t)
  then show ?thesis by simp
next
  case (3 x t)
  assume "str_replace ''..'' ''_'' s = CHR ''.'' # u"
  with 3 have "x # str_replace ''..'' ''_'' t = CHR ''.'' # u" by (simp add: dotdot_miss)
  with 3 show ?thesis by simp
qed

lemma no_dotdot_after_replace: "\<not> contains ''..'' (str_replace ''..'' ''_'' s)"
proof (induction s rule: length_induct)
  case (1 s)
  show ?case
  proof (cases s rule: dotdot_cases)
    case 1
    then show ?thesis by simp
  next
    case (2 t)
    with 1 have "\<not> contains ''..'' (str_replace ''..'' ''_'' t)" by simp
    with 2 show ?thesis by (simp add: dotdot_hit prefix_dotdot)
  next
    case (3 x t)
    with 1 have ih: "\<not> contains ''..'' (str_replace ''..'' ''_'' t)" by simp
    have "\<not> prefix ''..'' (x # str_replace ''..'' ''_'' t)"
    proof
      assume "prefix ''..'' (x # str_replace ''..'' ''_'' t)"
      then obtain u where x: "x = CHR ''.''" and u: "str_replace ''..'' ''_'' t = CHR ''.'' # u"
        unfolding prefix_dotdot by blast
      from str_replace_dotdot_head[OF u] obtain t' where "t = CHR ''.'' # t'" ..
      with x 3 show False by (simp add: prefix_dotdot)
    qed
    with ih 3 show ?thesis by (simp add: dotdot_miss)
  qed
qed

lemma contains_iff: "contains sub s \<longleftrightarrow> (\<exists>pre post. s = pre @ sub @ post)"
proof
  show "contains sub s \<Longrightarrow> \<exists>pre post. s = pre @ sub @ post"
  proof (induction s)
    case Nil
    then show ?case by simp
  next
    case (Cons x xs)
    from Cons.prems have "prefix sub (x # xs) \<or> contains sub xs" by simp
    then show ?case
    proof
      assume "prefix sub (x # xs)"
      then obtain post where "x # xs = sub @ post" by (auto simp: prefix_def)
      then have "x # xs = [] @ sub @ post" by simp
      then show ?thesis by blast
    next
      assume "contains sub xs"
      with Cons.IH obtain pre post where "xs = pre @ sub @ post" by blast
      then have "x # xs = (x # pre) @ sub @ post" by simp
      then show ?thesis by blast
    qed
  qed
next
  assume "\<exists>pre post. s = pre @ sub @ post"
  then obtain pre post where s: "s = pre @ sub @ post" by blast
  show "contains sub s" unfolding s
  proof (induction pre)
    case Nil
    have "prefix sub (sub @ post)" by simp
    then show ?case by (cases "sub @ post") auto
  next
    case (Cons p ps)
    then show ?case by simp
  qed
qed

lemma contains_set: "contains sub s \<Longrightarrow> set sub \<subseteq> set s"
  by (auto simp: contains_iff)

lemma strip_chars_sublist: "\<exists>pre post. s = pre @ strip_chars cs s @ post"
proof -
  let ?P = "\<lambda>c. c \<in> set cs"
  let ?d = "dropWhile ?P s"
  have "?d = rev (rev ?d)" by (simp only: rev_rev_ident)
  also have "rev ?d = takeWhile ?P (rev ?d) @ dropWhile ?P (rev ?d)"
    by (simp only: takeWhile_dropWhile_id)
  also have "rev (takeWhile ?P (rev ?d) @ dropWhile ?P (rev ?d))
               = strip_chars cs s @ rev (takeWhile ?P (rev ?d))"
    by (simp only: rev_append strip_chars_def)
  finally have d: "?d = strip_chars cs s @ rev (takeWhile ?P (rev ?d))" .
  have "s = takeWhile ?P s @ ?d" by (simp only: takeWhile_dropWhile_id)
  with d have "s = takeWhile ?P s @ strip_chars cs s @ rev (takeWhile ?P (rev ?d))"
    by (simp only:)
  then show ?thesis by blast
qed

lemma strip_chars_no_contains: "\<not> contains sub s \<Longrightarrow> \<not> contains sub (strip_chars cs s)"
proof
  assume n: "\<not> contains sub s" and c: "contains sub (strip_chars cs s)"
  from c obtain a b where ab: "strip_chars cs s = a @ sub @ b" unfolding contains_iff by blast
  from strip_chars_sublist[of s cs] obtain pre post where "s = pre @ strip_chars cs s @ post" by blast
  with ab have "s = (pre @ a) @ sub @ (b @ post)" by simp
  then have "contains sub s" unfolding contains_iff by blast
  with n show False ..
qed

lemma set_strip_chars: "set (strip_chars cs s) \<subseteq> set s"
  by (auto simp: strip_chars_def dest!: set_dropWhileD)

lemma in_set_dropWhile: "x \<in> set s \<Longrightarrow> \<not> P x \<Longrightarrow> x \<in> set (dropWhile P s)"
  by (induction s) auto

lemma strip_chars_keeps: "x \<in> set s \<Longrightarrow> x \<notin> set cs \<Longrightarrow> x \<in> set (strip_chars cs s)"
  by (simp add: strip_chars_def in_set_dropWhile)

lemma split_on_no_sep: "sep \<notin> set s \<Longrightarrow> split_on sep s = [s]"
  by (induction s) auto

lemma path_join_name:
  "CHR ''/'' \<notin> set name \<Longrightarrow>
   path_join base name = base @ (if name = [] \<or> name = ''.'' then [] else [name])"
  by (cases name) (auto simp: path_join_def split_on_no_sep startswith_def)

lemma resolve_snoc: "c \<noteq> ''..'' \<Longrightarrow> resolve (p @ [c]) = resolve p @ [c]"
  by (simp add: resolve_def)

lemma underscore_not_space: "CHR ''_'' \<notin> set whitespace"
  by (simp add: whitespace_def)

lemma validate_filename_name:
  assumes "validate_filename filename = Inr name"
  shows "CHR ''/'' \<notin> set name" and "\<not> contains ''..'' name"
    and "CHR ''/'' \<in> set filename \<Longrightarrow> CHR ''_'' \<in> set name"
proof -
  let ?f1 = "foldl (\<lambda>s c. str_replace [c] ''_'' s) filename dangerous_chars"
  let ?f2 = "str_replace ''..'' ''_'' ?f1"
  from assms have name: "name = strip ?f2"
    by (auto simp: validate_filename_def Let_def split: if_splits)
  have "CHR ''/'' \<notin> set ?f1"
    by (rule foldl_replace_absent) (simp_all add: slash_dangerous)
  with set_str_replace_dotdot[of ?f1] have "CHR ''/'' \<notin> set ?f2" by auto
  with set_strip_chars[of whitespace ?f2] show "CHR ''/'' \<notin> set name"
    unfolding name strip_def by auto
  show "\<not> contains ''..'' name" unfolding name strip_def
    by (rule strip_chars_no_contains) (rule no_dotdot_after_replace)
  assume "CHR ''/'' \<in> set filename"
  then have "CHR ''_'' \<in> set ?f1"
    by (rule foldl_replace_hit) (simp_all add: slash_dangerous)
  then have "CHR ''_'' \<in> set ?f2" by (rule str_replace_dotdot_keeps) simp
  then show "CHR ''_'' \<in> set name" unfolding name strip_def
    by (rule strip_chars_keeps) (rule underscore_not_space)
qed

lemma get_safe_file_path_slash:
  assumes slash: "CHR ''/'' \<in> set filename"
  shows "get_safe_file_path cfg s usr filename =
           (case validate_filename filename of
              Inl e \<Rightarrow> (s, Inl e)
            | Inr name \<Rightarrow>
                (case mkdir_exist_ok s (user_dir cfg usr) of
                   Inl e \<Rightarrow> (s, Inl e)
                 | Inr s' \<Rightarrow> (s', Inr (resolve (user_dir cfg usr) @ [name]))))"
proof (cases "validate_filename filename")
  case (Inl e)
  then show ?thesis by (simp add: get_safe_file_path_def)
next
  case (Inr name)
  note facts = validate_filename_name[OF Inr]
  from facts(3)[OF slash] have "name \<noteq> []" and "name \<noteq> ''.''" by auto
  moreover from facts(2) have "name \<noteq> ''..''" by auto
  ultimately have "resolve (path_join (user_dir cfg usr) name) = resolve (user_dir cfg usr) @ [name]"
    using facts(1) by (simp add: path_join_name resolve_snoc)
  with Inr show ?thesis
    by (simp add: get_safe_file_path_def get_user_storage_path_def relative_to_def
          split: sum.splits)
qed

lemma validate_filename_error: "validate_filename filename = Inl e \<Longrightarrow> e = InvalidName"
  by (auto simp: validate_filename_def Let_def split: if_splits)

lemma mkdir_exist_ok_error:
  "mkdir_exist_ok s p = Inl e \<Longrightarrow> e = FileExistsError \<or> e = FileNotFoundError"
  by (auto simp: mkdir_exist_ok_def split: if_splits)

lemma trigger_has_slash:
  "contains ''../'' filename \<or> startswith filename ''/'' \<Longrightarrow> CHR ''/'' \<in> set filename"
proof (erule disjE)
  assume "contains ''../'' filename"
  from contains_set[OF this] show ?thesis by simp
next
  assume "startswith filename ''/''"
  then show ?thesis by (auto simp: startswith_def prefix_def)
qed

text \<open>
  C1 (as the code has it). A filename that contains \<open>../\<close> or begins with \<open>/\<close> never makes
  \<open>_get_safe_file_path\<close> fail with \<open>PathTraversal\<close>: \<open>_validate_filename\<close> replaces the
  separators and every \<open>..\<close> by underscores first. The call fails with \<open>InvalidName\<close> when
  the name is empty, too long or reduced to dots and underscores, fails when the sandbox
  directory cannot be made, and otherwise returns the direct child of the owner's sandbox
  named by the sanitized name, which has no \<open>/\<close> and no \<open>..\<close>.
\<close>

theorem traversal_names_are_sanitized:
  assumes "contains ''../'' filename \<or> startswith filename ''/''"
  shows "get_safe_file_path cfg s usr filename =
           (case validate_filename filename of
              Inl e \<Rightarrow> (s, Inl e)
            | Inr name \<Rightarrow>
                (case mkdir_exist_ok s (user_dir cfg usr) of
                   Inl e \<Rightarrow> (s, Inl e)
                 | Inr s' \<Rightarrow> (s', Inr (resolve (user_dir cfg usr) @ [name]))))
       \<and> snd (get_safe_file_path cfg s usr filename) \<noteq> Inl PathTraversal
       \<and> (\<forall>name. validate_filename filename = Inr name
             \<longrightarrow> CHR ''/'' \<notin> set name \<and> \<not> contains ''..'' name)"
proof -
  from assms have slash: "CHR ''/'' \<in> set filename" by (rule trigger_has_slash)
  note eq = get_safe_file_path_slash[OF slash, of cfg s usr]
  have "snd (get_safe_file_path cfg s usr filename) \<noteq> Inl PathTraversal"
    unfolding eq
    by (auto split: sum.splits dest: validate_filename_error mkdir_exist_ok_error)
  with eq validate_filename_name(1,2) show ?thesis by blast
qed

theorem traversal_names_are_sanitized_witness:
  "contains ''../'' ''../etc/passwd''
   \<and> validate_filename ''../etc/passwd'' = Inr ''__etc_passwd''
   \<and> snd (get_safe_file_path default_settings fresh_store alice ''../etc/passwd'')
       \<noteq> Inl PathTraversal
   \<and> CHR ''/'' \<notin> set ''__etc_passwd'' \<and> \<not> contains ''..'' ''__etc_passwd''"
proof -
  have h: "contains ''../'' ''../etc/passwd'' \<or> startswith ''../etc/passwd'' ''/''"
    by code_simp
  have c: "contains ''../'' ''../etc/passwd''" by code_simp
  have v: "validate_filename ''../etc/passwd'' = Inr ''__etc_passwd''" by code_simp
  from traversal_names_are_sanitized[OF h, of default_settings fresh_store alice] v c
  show ?thesis by blast
qed

text \<open>C1 as stated fails: both kinds of name are accepted under a sanitized name.\<close>

theorem path_traversal_error_counterexample:
  "contains ''../'' ''../etc/passwd''
   \<and> snd (get_safe_file_path default_settings fresh_store alice ''../etc/passwd'')
       = Inr [''app'', ''safe_storage'', ''user_1'', ''__etc_passwd'']
   \<and> startswith ''/etc/passwd'' ''/''
   \<and> snd (get_safe_file_path default_settings fresh_store alice ''/etc/passwd'')
       = Inr [''app'', ''safe_storage'', ''user_1'', ''_etc_passwd'']"
  by code_simp

section \<open>Properties of the file store\<close>

lemma concat_read_chunks: "0 < n \<Longrightarrow> concat (read_chunks n data) = data"
proof (induction n data rule: read_chunks.induct)
  case (1 n data)
  show ?case
  proof (cases "data = []")
    case True
    then show ?thesis by (simp add: read_chunks.simps)
  next
    case False
    with 1 have "concat (read_chunks n (drop n data)) = drop n data" by simp
    with False 1(2) show ?thesis by (subst read_chunks.simps) simp
  qed
qed

lemma log_operation_fields [simp]:
  "fs_files (log_operation s usr t d f ip ok e) = fs_files s"
  "fs_dirs (log_operation s usr t d f ip ok e) = fs_dirs s"
  "files (log_operation s usr t d f ip ok e) = files s"
  "next_file_id (log_operation s usr t d f ip ok e) = next_file_id s"
  "log_warnings (log_operation s usr t d f ip ok e) = log_warnings s"
  by (simp_all add: log_operation_def)

lemma select_log_operation [simp]:
  "select_by_id (log_operation s usr t d f ip ok e) u i = select_by_id s u i"
  "select_by_name (log_operation s usr t d f ip ok e) u n dir = select_by_name s u n dir"
  "path_exists (log_operation s usr t d f ip ok e) p = path_exists s p"
  "read_bytes (log_operation s usr t d f ip ok e) p = read_bytes s p"
  by (simp_all add: select_by_id_def select_by_name_def path_exists_def read_bytes_def)

lemma write_bytes_Inr:
  "write_bytes s p data = Inr s' \<longleftrightarrow>
     p \<notin> fs_dirs s \<and> butlast p \<in> fs_dirs s \<and> s' = s\<lparr>fs_files := (fs_files s)(p \<mapsto> data)\<rparr>"
  by (auto simp: write_bytes_def)

lemma checksum_after_write:
  "write_bytes s p data = Inr s' \<Longrightarrow>
   calculate_file_checksum lib s' p = Inr (sha256_hexdigest lib data)"
  by (auto simp: write_bytes_Inr calculate_file_checksum_def read_bytes_def concat_read_chunks)

lemma validate_file_format_fields [simp]:
  "fs_files (snd (validate_file_format lib s fn c)) = fs_files s"
  "fs_dirs (snd (validate_file_format lib s fn c)) = fs_dirs s"
  "files (snd (validate_file_format lib s fn c)) = files s"
  "operations (snd (validate_file_format lib s fn c)) = operations s"
  "next_file_id (snd (validate_file_format lib s fn c)) = next_file_id s"
  by (auto simp: validate_file_format_def split: sum.splits)

lemma get_safe_file_path_Inr:
  assumes "get_safe_file_path cfg s usr fn = (s2, Inr p)"
  shows "s2 = s\<lparr>fs_dirs := insert (user_dir cfg usr) (fs_dirs s)\<rparr>"
    and "prefix (resolve (user_dir cfg usr)) p"
    and "\<exists>name. validate_filename fn = Inr name \<and> p = resolve (path_join (user_dir cfg usr) name)"
    and "fs_files s (user_dir cfg usr) = None \<or> user_dir cfg usr \<in> fs_dirs s"
  using assms
  by (auto simp: get_safe_file_path_def get_user_storage_path_def mkdir_exist_ok_def
        relative_to_def Let_def insert_absorb split: sum.splits if_splits)

lemma get_safe_file_path_Inl:
  assumes "get_safe_file_path cfg s usr fn = (s2, Inl e)"
  shows "fs_files s2 = fs_files s" and "files s2 = files s" and "next_file_id s2 = next_file_id s"
    and "operations s2 = operations s"
  using assms
  by (auto simp: get_safe_file_path_def get_user_storage_path_def mkdir_exist_ok_def
        relative_to_def Let_def split: sum.splits if_splits)

lemma scalar_one_or_none_simps:
  "scalar_one_or_none rows = Inr None \<longleftrightarrow> rows = []"
  "scalar_one_or_none rows = Inr (Some r) \<longleftrightarrow> rows = [r]"
  "scalar_one_or_none rows = Inl e \<longleftrightarrow> e = MultipleResultsFound \<and> length rows \<ge> 2"
  by (auto simp: scalar_one_or_none_def split: list.splits)

lemma check_format_fields [simp]:
  "fs_files (snd (check_format lib s fn c)) = fs_files s"
  "fs_dirs (snd (check_format lib s fn c)) = fs_dirs s"
  "files (snd (check_format lib s fn c)) = files s"
  "operations (snd (check_format lib s fn c)) = operations s"
  "next_file_id (snd (check_format lib s fn c)) = next_file_id s"
  by (simp_all add: check_format_def)

lemma create_file_try_Inr:
  assumes ok: "create_file_try lib cfg s usr fn content enc dir = (s', Inr r)"
  shows "\<exists>s1 p.
      length content \<le> max_file_size cfg
    \<and> check_format lib s fn content = (True, s1)
    \<and> get_safe_file_path cfg s1 usr fn
          = (s1\<lparr>fs_dirs := insert (user_dir cfg usr) (fs_dirs s)\<rparr>, Inr p)
    \<and> select_by_name s usr fn dir = []
    \<and> p \<notin> insert (user_dir cfg usr) (fs_dirs s)
    \<and> butlast p \<in> insert (user_dir cfg usr) (fs_dirs s)
    \<and> r = new_file lib s usr fn content enc dir p
              (sha256_hexdigest lib (final_content lib enc content))
    \<and> s' = s1\<lparr>fs_dirs := insert (user_dir cfg usr) (fs_dirs s),
               fs_files := (fs_files s)(p \<mapsto> final_content lib enc content),
               files := files s @ [r],
               next_file_id := Suc (next_file_id s)\<rparr>"
proof -
  from ok have size: "length content \<le> max_file_size cfg"
    by (auto simp: create_file_try_def split: if_splits)
  obtain b s1 where cf: "check_format lib s fn content = (b, s1)"
    by (cases "check_format lib s fn content")
  with ok size have b: "b" by (cases b) (auto simp: create_file_try_def)
  have s1: "s1 = snd (check_format lib s fn content)" by (simp add: cf)
  have s1_fields: "fs_files s1 = fs_files s" "fs_dirs s1 = fs_dirs s" "files s1 = files s"
      "next_file_id s1 = next_file_id s"
    by (simp_all add: s1)
  obtain s2 res where g: "get_safe_file_path cfg s1 usr fn = (s2, res)"
    by (cases "get_safe_file_path cfg s1 usr fn")
  with ok size cf b obtain p where res: "res = Inr p"
    by (cases res) (auto simp: create_file_try_def)
  note gp = get_safe_file_path_Inr[OF g[unfolded res]]
  from gp(1) have s2: "s2 = s1\<lparr>fs_dirs := insert (user_dir cfg usr) (fs_dirs s)\<rparr>"
    by (simp add: s1_fields)
  from ok size cf b g res have nodup: "select_by_name s2 usr fn dir = []"
    by (auto simp: create_file_try_def scalar_one_or_none_simps split: sum.splits option.splits)
  then have nodup': "select_by_name s usr fn dir = []"
    by (simp add: select_by_name_def s2 s1_fields)
  from ok size cf b g res nodup
  obtain s3 where w: "write_bytes s2 p (final_content lib enc content) = Inr s3"
    by (auto simp: create_file_try_def scalar_one_or_none_def split: sum.splits)
  note cs = checksum_after_write[OF w, of lib]
  from w have w': "p \<notin> fs_dirs s2" "butlast p \<in> fs_dirs s2"
      "s3 = s2\<lparr>fs_files := (fs_files s2)(p \<mapsto> final_content lib enc content)\<rparr>"
    by (simp_all add: write_bytes_Inr)
  from ok size cf b g res nodup w cs have
    r: "r = new_file lib s3 usr fn content enc dir p
              (sha256_hexdigest lib (final_content lib enc content))"
    and s': "s' = add_file s3 r"
    by (auto simp add: create_file_try_def scalar_one_or_none_def)
  have r': "r = new_file lib s usr fn content enc dir p
              (sha256_hexdigest lib (final_content lib enc content))"
    using r by (simp add: new_file_def w'(3) s2 s1_fields)
  have "s' = s1\<lparr>fs_dirs := insert (user_dir cfg usr) (fs_dirs s),
               fs_files := (fs_files s)(p \<mapsto> final_content lib enc content),
               files := files s @ [r],
               next_file_id := Suc (next_file_id s)\<rparr>"
    using s' by (simp add: add_file_def w'(3) s2 s1_fields)
  moreover have "p \<notin> insert (user_dir cfg usr) (fs_dirs s)"
      "butlast p \<in> insert (user_dir cfg usr) (fs_dirs s)"
    using w'(1,2) by (simp_all add: s2)
  moreover have "get_safe_file_path cfg s1 usr fn
          = (s1\<lparr>fs_dirs := insert (user_dir cfg usr) (fs_dirs s)\<rparr>, Inr p)"
    using g res s2 by simp
  moreover have "check_format lib s fn content = (True, s1)" using cf b by simp
  moreover note size nodup' r'
  ultimately show ?thesis
    apply (intro exI[of _ s1] exI[of _ p])
    apply (intro conjI)
           apply assumption+
    done
qed

lemma create_file_Inr:
  assumes "create_file lib cfg s usr fn content enc dir ip = (s', Inr r)"
  shows "\<exists>s0. create_file_try lib cfg s usr fn content enc dir = (s0, Inr r)
           \<and> s' = log_operation s0 usr CREATE
                    (''Created file: '' @ fn @ '' (encrypted: '' @ str_bool enc @ '')'')
                    (Some (f_id r)) ip True None"
  using assms by (auto simp: create_file_def split: prod.splits sum.splits)

lemma create_file_Inl:
  assumes "create_file_try lib cfg s usr fn content enc dir = (s0, Inl e)"
  shows "create_file lib cfg s usr fn content enc dir ip =
           (log_operation s0 usr CREATE (''Failed to create file: '' @ fn) None ip False (Some e),
            Inl e)"
  using assms by (simp add: create_file_def)

lemma create_file_Inr_facts:
  assumes "create_file lib cfg s usr fn content enc dir ip = (s', Inr r)"
  shows "files s' = files s @ [r]"
    and "f_id r = next_file_id s"
    and "next_file_id s' = Suc (next_file_id s)"
    and "f_owner_id r = u_id usr" and "f_original_name r = fn" and "f_directory_id r = dir"
    and "f_is_encrypted r = enc" and "f_size r = length content"
    and "f_checksum r = Some (sha256_hexdigest lib (final_content lib enc content))"
    and "fs_files s' = (fs_files s)(f_storage_path r \<mapsto> final_content lib enc content)"
    and "fs_dirs s' = insert (user_dir cfg usr) (fs_dirs s)"
    and "f_storage_path r \<notin> fs_dirs s'"
    and "select_by_name s usr fn dir = []"
    and "length content \<le> max_file_size cfg"
    and "fst (check_format lib s fn content)"
    and "\<exists>name. validate_filename fn = Inr name
           \<and> f_storage_path r = resolve (path_join (user_dir cfg usr) name)"
    and "prefix (resolve (user_dir cfg usr)) (f_storage_path r)"
proof -
  from create_file_Inr[OF assms] obtain s0 where
    t: "create_file_try lib cfg s usr fn content enc dir = (s0, Inr r)"
    and s': "s' = log_operation s0 usr CREATE
                    (''Created file: '' @ fn @ '' (encrypted: '' @ str_bool enc @ '')'')
                    (Some (f_id r)) ip True None"
    by blast
  from create_file_try_Inr[OF t] obtain s1 p where
    size: "length content \<le> max_file_size cfg"
    and cf: "check_format lib s fn content = (True, s1)"
    and g: "get_safe_file_path cfg s1 usr fn
          = (s1\<lparr>fs_dirs := insert (user_dir cfg usr) (fs_dirs s)\<rparr>, Inr p)"
    and nodup: "select_by_name s usr fn dir = []"
    and p: "p \<notin> insert (user_dir cfg usr) (fs_dirs s)"
    and r: "r = new_file lib s usr fn content enc dir p
              (sha256_hexdigest lib (final_content lib enc content))"
    and s0: "s0 = s1\<lparr>fs_dirs := insert (user_dir cfg usr) (fs_dirs s),
               fs_files := (fs_files s)(p \<mapsto> final_content lib enc content),
               files := files s @ [r],
               next_file_id := Suc (next_file_id s)\<rparr>"
    by blast
  have sp: "f_storage_path r = p" by (simp add: r new_file_def)
  show "files s' = files s @ [r]" by (simp add: s' s0)
  show "f_id r = next_file_id s" by (simp add: r new_file_def)
  show "next_file_id s' = Suc (next_file_id s)" by (simp add: s' s0)
  show "f_owner_id r = u_id usr" "f_original_name r = fn" "f_directory_id r = dir"
    "f_is_encrypted r = enc" "f_size r = length content"
    "f_checksum r = Some (sha256_hexdigest lib (final_content lib enc content))"
    by (simp_all add: r new_file_def)
  show "fs_files s' = (fs_files s)(f_storage_path r \<mapsto> final_content lib enc content)"
    by (simp add: s' s0 sp)
  show "fs_dirs s' = insert (user_dir cfg usr) (fs_dirs s)" by (simp add: s' s0)
  show "f_storage_path r \<notin> fs_dirs s'" using p by (simp add: s' s0 sp)
  show "select_by_name s usr fn dir = []" by (rule nodup)
  show "length content \<le> max_file_size cfg" by (rule size)
  show "fst (check_format lib s fn content)" by (simp add: cf)
  from get_safe_file_path_Inr(3)[OF g]
  show "\<exists>name. validate_filename fn = Inr name
           \<and> f_storage_path r = resolve (path_join (user_dir cfg usr) name)"
    by (simp add: sp)
  from get_safe_file_path_Inr(2)[OF g]
  show "prefix (resolve (user_dir cfg usr)) (f_storage_path r)" by (simp add: sp)
qed

text \<open>
  C4. In a store whose id sequence is ahead of the table, when \<open>create_file\<close> with
  \<open>encrypt = False\<close> returns a record, \<open>read_file\<close> of that record's id by the same
  owner returns the record and exactly the bytes written, and the record's checksum is the
  SHA-256 digest of those bytes.
\<close>

theorem create_read_roundtrip:
  assumes fresh: "ids_fresh s"
    and created: "create_file lib cfg s usr filename content False directory_id ip = (s1, Inr r)"
  shows "snd (read_file s1 usr (f_id r) ip2) = Inr (r, content)
       \<and> f_checksum r = Some (sha256_hexdigest lib content)"
proof -
  note f = create_file_Inr_facts[OF created]
  have old: "filter (\<lambda>x. f_id x = f_id r \<and> f_owner_id x = u_id usr) (files s) = []"
    using fresh by (auto simp: ids_fresh_def f(2) filter_empty_conv)
  have sel: "select_by_id s1 usr (f_id r) = [r]"
    by (simp add: select_by_id_def f(1) f(4) old)
  have bytes: "fs_files s1 (f_storage_path r) = Some content"
    by (simp add: f(10) final_content_def)
  have "read_file_try s1 usr (f_id r) = Inr (r, content)"
    using f(12) by (simp add: read_file_try_def sel scalar_one_or_none_def path_exists_def
        read_bytes_def bytes f(7))
  then have "snd (read_file s1 usr (f_id r) ip2) = Inr (r, content)"
    by (simp add: read_file_def)
  with f(9) show ?thesis by (simp add: final_content_def)
qed

theorem create_read_roundtrip_witness:
  "ids_fresh fresh_store
   \<and> snd (create_file sample_library default_settings fresh_store alice ''a.txt'' ''hello''
            False None None) = Inr hello_file
   \<and> snd (read_file
            (fst (create_file sample_library default_settings fresh_store alice ''a.txt''
                   ''hello'' False None None))
            alice (f_id hello_file) None) = Inr (hello_file, ''hello'')
   \<and> f_checksum hello_file = Some (sha256_hexdigest sample_library ''hello'')"
proof -
  have h1: "ids_fresh fresh_store" by (simp add: ids_fresh_def fresh_store_def)
  have c: "snd (create_file sample_library default_settings fresh_store alice ''a.txt''
                 ''hello'' False None None) = Inr hello_file"
    by code_simp
  then have h2: "create_file sample_library default_settings fresh_store alice ''a.txt''
                 ''hello'' False None None =
       (fst (create_file sample_library default_settings fresh_store alice ''a.txt''
                 ''hello'' False None None), Inr hello_file)"
    by (simp add: prod_eq_iff)
  from create_read_roundtrip[OF h1 h2, of None] h1 c show ?thesis by simp
qed

lemma check_format_state_independent:
  "fst (check_format lib s fn c) = fst (check_format lib s' fn c)"
  by (auto simp: check_format_def validate_file_format_def split: sum.splits)

lemma get_safe_file_path_again:
  assumes "validate_filename fn = Inr name" and "user_dir cfg usr \<in> fs_dirs s"
    and "prefix (resolve (user_dir cfg usr)) (resolve (path_join (user_dir cfg usr) name))"
  shows "get_safe_file_path cfg s usr fn = (s, Inr (resolve (path_join (user_dir cfg usr) name)))"
  using assms
  by (simp add: get_safe_file_path_def get_user_storage_path_def mkdir_exist_ok_def
        relative_to_def)

lemma create_file_try_duplicate:
  assumes name: "validate_filename fn = Inr name"
    and dir: "user_dir cfg usr \<in> fs_dirs s"
    and inside: "prefix (resolve (user_dir cfg usr)) (resolve (path_join (user_dir cfg usr) name))"
    and row: "select_by_name s usr fn d = [r]"
  shows "create_file_try lib cfg s usr fn c e d =
           (if length c > max_file_size cfg then (s, Inl SizeLimitExceeded)
            else if \<not> fst (check_format lib s fn c)
            then (snd (check_format lib s fn c), Inl InvalidFormat)
            else (snd (check_format lib s fn c), Inl DuplicateName))"
proof (cases "length c > max_file_size cfg")
  case True
  then show ?thesis by (simp add: create_file_try_def)
next
  case False
  obtain b s1 where cf: "check_format lib s fn c = (b, s1)"
    by (cases "check_format lib s fn c")
  have s1_dirs: "fs_dirs s1 = fs_dirs s"
    using check_format_fields(2)[of lib s fn c] by (simp add: cf)
  have s1_files: "files s1 = files s"
    using check_format_fields(3)[of lib s fn c] by (simp add: cf)
  show ?thesis
  proof (cases b)
    case False
    with cf \<open>\<not> length c > max_file_size cfg\<close> show ?thesis
      by (simp add: create_file_try_def)
  next
    case True
    from dir have "user_dir cfg usr \<in> fs_dirs s1" by (simp add: s1_dirs)
    from get_safe_file_path_again[OF name this inside]
    have g: "get_safe_file_path cfg s1 usr fn
               = (s1, Inr (resolve (path_join (user_dir cfg usr) name)))" .
    have sel: "select_by_name s1 usr fn d = [r]"
      using row by (simp add: select_by_name_def s1_files)
    from cf True \<open>\<not> length c > max_file_size cfg\<close> g sel show ?thesis
      by (simp add: create_file_try_def scalar_one_or_none_def)
  qed
qed

text \<open>
  C5 (as the code has it). After a successful \<open>create_file\<close>, every further
  \<open>create_file\<close> for the same owner, directory and display name fails and leaves exactly
  the first record under that name. The error is \<open>DuplicateName\<close> when the new content
  passes the size and format checks, which come first (so in particular for the same
  content); otherwise it is \<open>SizeLimitExceeded\<close> or \<open>InvalidFormat\<close>.
\<close>

theorem duplicate_create_rejected:
  assumes first: "create_file lib cfg s usr filename c1 e1 directory_id ip1 = (s1, Inr r1)"
  shows "(let second = create_file lib cfg s1 usr filename c2 e2 directory_id ip2 in
            (snd second = Inl SizeLimitExceeded \<or> snd second = Inl InvalidFormat
               \<or> snd second = Inl DuplicateName)
          \<and> (length c2 \<le> max_file_size cfg \<and> fst (check_format lib s1 filename c2)
               \<longrightarrow> snd second = Inl DuplicateName)
          \<and> select_by_name (fst second) usr filename directory_id = [r1])
       \<and> snd (create_file lib cfg s1 usr filename c1 e1 directory_id ip2) = Inl DuplicateName"
proof -
  note f = create_file_Inr_facts[OF first]
  from f(16) obtain name where name: "validate_filename filename = Inr name"
    and sp: "f_storage_path r1 = resolve (path_join (user_dir cfg usr) name)" by blast
  have dir: "user_dir cfg usr \<in> fs_dirs s1" by (simp add: f(11))
  have inside: "prefix (resolve (user_dir cfg usr)) (resolve (path_join (user_dir cfg usr) name))"
    using f(17) by (simp add: sp)
  have row: "select_by_name s1 usr filename directory_id = [r1]"
    using f(13) by (simp add: select_by_name_def f(1) f(4) f(5) f(6))
  note dup = create_file_try_duplicate[OF name dir inside row, of lib]
  have files_after: "\<And>c e. files (fst (create_file_try lib cfg s1 usr filename c e directory_id))
                      = files s1"
    by (simp add: dup)
  have sel_after: "\<And>c e ip. select_by_name
        (fst (create_file lib cfg s1 usr filename c e directory_id ip)) usr filename directory_id
        = [r1]"
  proof -
    fix c e ip
    obtain s0 err where t: "create_file_try lib cfg s1 usr filename c e directory_id = (s0, Inl err)"
      by (cases "length c > max_file_size cfg"; cases "fst (check_format lib s1 filename c)")
         (simp_all add: dup)
    from files_after[of c e] t have "files s0 = files s1" by simp
    with row show "select_by_name
        (fst (create_file lib cfg s1 usr filename c e directory_id ip)) usr filename directory_id
        = [r1]"
      by (simp add: create_file_Inl[OF t] select_by_name_def)
  qed
  have res: "\<And>c e ip. snd (create_file lib cfg s1 usr filename c e directory_id ip) =
           (if length c > max_file_size cfg then Inl SizeLimitExceeded
            else if \<not> fst (check_format lib s1 filename c) then Inl InvalidFormat
            else Inl DuplicateName)"
    by (simp add: create_file_def dup)
  have same: "fst (check_format lib s1 filename c1)"
    using f(15) check_format_state_independent[of lib s1 filename c1 s] by simp
  show ?thesis
    using sel_after[of c2 e2 ip2] f(14) same by (simp add: Let_def res)
qed


theorem duplicate_create_rejected_witness:
  "snd (create_file sample_library default_settings fresh_store alice ''a.txt'' ''hello''
          False None None) = Inr hello_file
   \<and> snd (create_file sample_library default_settings
            (fst (create_file sample_library default_settings fresh_store alice ''a.txt''
                   ''hello'' False None None))
            alice ''a.txt'' ''hello'' False None None) = Inl DuplicateName
   \<and> select_by_name
        (fst (create_file sample_library default_settings
               (fst (create_file sample_library default_settings fresh_store alice ''a.txt''
                      ''hello'' False None None))
               alice ''a.txt'' ''hello'' False None None))
        alice ''a.txt'' None = [hello_file]"
proof -
  have c: "snd (create_file sample_library default_settings fresh_store alice ''a.txt''
                 ''hello'' False None None) = Inr hello_file"
    by code_simp
  then have h: "create_file sample_library default_settings fresh_store alice ''a.txt''
                 ''hello'' False None None =
       (fst (create_file sample_library default_settings fresh_store alice ''a.txt''
                 ''hello'' False None None), Inr hello_file)"
    by (simp add: prod_eq_iff)
  from duplicate_create_rejected[OF h, of "''hello''" False None] c
  show ?thesis by (simp add: Let_def)
qed

text \<open>C5 as stated fails: a second \<open>note.json\<close> whose content is not JSON is turned down
  by the format check, before the duplicate query.\<close>

theorem duplicate_name_error_counterexample:
  "\<not> isl (snd (create_file sample_library default_settings fresh_store alice ''note.json''
                 script_json False None None))
   \<and> snd (create_file sample_library default_settings
            (fst (create_file sample_library default_settings fresh_store alice ''note.json''
                   script_json False None None))
            alice ''note.json'' ''{'' False None None) = Inl InvalidFormat"
  by code_simp

lemma select_by_id_id: "r \<in> set (select_by_id s usr file_id) \<Longrightarrow> f_id r = file_id"
  by (simp add: select_by_id_def)

lemma delete_file_try_missing:
  "select_by_id s usr file_id = [] \<Longrightarrow> delete_file_try s usr file_id = (s, Inl NotFound)"
  by (simp add: delete_file_try_def scalar_one_or_none_def)

lemma delete_file_try_found:
  assumes "select_by_id s usr file_id = [r]" and "f_storage_path r \<notin> fs_dirs s"
  shows "delete_file_try s usr file_id =
           (delete_row (s\<lparr>fs_files := (fs_files s)(f_storage_path r := None)\<rparr>) r,
            Inr (True, f_original_name r))"
proof (cases "fs_files s (f_storage_path r)")
  case None
  then have "(fs_files s)(f_storage_path r := None) = fs_files s" by auto
  with None assms show ?thesis
    by (simp add: delete_file_try_def scalar_one_or_none_def path_exists_def)
next
  case (Some b)
  with assms show ?thesis
    by (simp add: delete_file_try_def scalar_one_or_none_def path_exists_def unlink_def)
qed

lemma delete_file_try_never_False:
  "delete_file_try s usr file_id = (s', Inr (b, n)) \<Longrightarrow> b"
  by (auto simp: delete_file_try_def split: sum.splits option.splits if_splits)

text \<open>
  C6 (as the code has it). \<open>delete_file\<close> never returns \<open>False\<close>. When no record
  matches the owner and the id it raises the not-found error and leaves the records, the
  files and the directories as they were; so deleting an id that never existed, or was
  deleted before, touches no other file. When exactly one record matches (and its storage
  path is not a directory) it removes the bytes if they are there, removes the record,
  returns \<open>True\<close>, and a second delete of the same id raises the not-found error.
\<close>

theorem delete_file_behaviour:
  "snd (delete_file s usr file_id ip) \<noteq> Inr False
   \<and> (select_by_id s usr file_id = [] \<longrightarrow>
        snd (delete_file s usr file_id ip) = Inl NotFound
        \<and> files (fst (delete_file s usr file_id ip)) = files s
        \<and> fs_files (fst (delete_file s usr file_id ip)) = fs_files s
        \<and> fs_dirs (fst (delete_file s usr file_id ip)) = fs_dirs s)
   \<and> (\<forall>r. select_by_id s usr file_id = [r] \<and> f_storage_path r \<notin> fs_dirs s \<longrightarrow>
        snd (delete_file s usr file_id ip) = Inr True
        \<and> fs_files (fst (delete_file s usr file_id ip)) = (fs_files s)(f_storage_path r := None)
        \<and> fs_dirs (fst (delete_file s usr file_id ip)) = fs_dirs s
        \<and> files (fst (delete_file s usr file_id ip)) = filter (\<lambda>x. f_id x \<noteq> file_id) (files s)
        \<and> snd (delete_file (fst (delete_file s usr file_id ip)) usr file_id ip2) = Inl NotFound)"
proof (intro conjI allI impI)
  show "snd (delete_file s usr file_id ip) \<noteq> Inr False"
    by (auto simp: delete_file_def split: prod.splits sum.splits
          dest: delete_file_try_never_False)
next
  assume m: "select_by_id s usr file_id = []"
  note t = delete_file_try_missing[OF m]
  show "snd (delete_file s usr file_id ip) = Inl NotFound"
    "files (fst (delete_file s usr file_id ip)) = files s"
    "fs_files (fst (delete_file s usr file_id ip)) = fs_files s"
    "fs_dirs (fst (delete_file s usr file_id ip)) = fs_dirs s"
    by (simp_all add: delete_file_def t)
next
  fix r
  assume a: "select_by_id s usr file_id = [r] \<and> f_storage_path r \<notin> fs_dirs s"
  then have sel: "select_by_id s usr file_id = [r]" and nd: "f_storage_path r \<notin> fs_dirs s"
    by simp_all
  from sel have id: "f_id r = file_id" using select_by_id_id[of r s usr file_id] by simp
  note t = delete_file_try_found[OF sel nd]
  show "snd (delete_file s usr file_id ip) = Inr True"
    "fs_files (fst (delete_file s usr file_id ip)) = (fs_files s)(f_storage_path r := None)"
    "fs_dirs (fst (delete_file s usr file_id ip)) = fs_dirs s"
    by (simp_all add: delete_file_def t delete_row_def)
  show fl: "files (fst (delete_file s usr file_id ip)) = filter (\<lambda>x. f_id x \<noteq> file_id) (files s)"
    by (simp add: delete_file_def t delete_row_def id)
  have "select_by_id (fst (delete_file s usr file_id ip)) usr file_id = []"
    by (simp add: select_by_id_def fl filter_empty_conv)
  from delete_file_try_missing[OF this]
  show "snd (delete_file (fst (delete_file s usr file_id ip)) usr file_id ip2) = Inl NotFound"
    by (simp add: delete_file_def)
qed

theorem delete_file_behaviour_witness:
  "select_by_id fresh_store alice 7 = []
   \<and> snd (delete_file fresh_store alice 7 None) = Inl NotFound
   \<and> select_by_id hello_store alice 1 = [hello_file]
   \<and> f_storage_path hello_file \<notin> fs_dirs hello_store
   \<and> snd (delete_file hello_store alice 1 None) = Inr True
   \<and> fs_files (fst (delete_file hello_store alice 1 None)) (f_storage_path hello_file) = None
   \<and> snd (delete_file (fst (delete_file hello_store alice 1 None)) alice 1 None) = Inl NotFound"
proof -
  have h1: "select_by_id fresh_store alice 7 = []" by code_simp
  have h2: "select_by_id hello_store alice 1 = [hello_file]" by code_simp
  have h3: "f_storage_path hello_file \<notin> fs_dirs hello_store" by code_simp
  from delete_file_behaviour[of fresh_store alice 7 None None] h1
  have a: "snd (delete_file fresh_store alice 7 None) = Inl NotFound" by blast
  from delete_file_behaviour[of hello_store alice 1 None None] h2 h3
  have b: "snd (delete_file hello_store alice 1 None) = Inr True
        \<and> fs_files (fst (delete_file hello_store alice 1 None))
             = (fs_files hello_store)(f_storage_path hello_file := None)
        \<and> snd (delete_file (fst (delete_file hello_store alice 1 None)) alice 1 None)
             = Inl NotFound"
    by blast
  from a b h1 h2 h3 show ?thesis by simp
qed

text \<open>C6 as stated fails: for an id without a record the call raises instead of returning
  \<open>False\<close>.\<close>

theorem delete_returns_false_counterexample:
  "select_by_id fresh_store alice 7 = []
   \<and> snd (delete_file fresh_store alice 7 None) = Inl NotFound"
  by code_simp

lemma read_file_try_encrypted:
  assumes "select_by_id s usr file_id = [r]" and "f_is_encrypted r"
  shows "read_file_try s usr file_id =
           Inl (if \<not> path_exists s (f_storage_path r) then NotFound
                else if f_storage_path r \<in> fs_dirs s then IsADirectoryError
                else NotSupported)"
  using assms
  by (auto simp: read_file_try_def scalar_one_or_none_def read_bytes_def path_exists_def
        split: option.splits)

lemma update_file_try_encrypted:
  assumes "select_by_id s usr file_id = [r]" and "f_is_encrypted r"
  shows "update_file_try lib cfg s usr file_id new_content =
           (s, Inl (if length new_content > max_file_size cfg then SizeLimitExceeded
                    else NotSupported))"
  using assms by (simp add: update_file_try_def scalar_one_or_none_def)

text \<open>
  C8 (as the code has it). For a record with the encrypted flag that the query finds:
  \<open>read_file\<close> raises the not-supported error when the bytes are on disk, and the
  not-found error when they are missing, which it checks first; \<open>update_file\<close> raises the
  not-supported error when the new content is within the size limit, and the size error
  otherwise, which it checks first. \<open>update_file\<close> leaves the records and the files as
  they were in both cases.
\<close>

theorem encrypted_records_not_supported:
  assumes "select_by_id s usr file_id = [r]" and "f_is_encrypted r"
  shows "(fs_files s (f_storage_path r) \<noteq> None \<and> f_storage_path r \<notin> fs_dirs s
            \<longrightarrow> snd (read_file s usr file_id ip) = Inl NotSupported)
       \<and> (\<not> path_exists s (f_storage_path r)
            \<longrightarrow> snd (read_file s usr file_id ip) = Inl NotFound)
       \<and> snd (update_file lib cfg s usr file_id new_content ip2) =
            Inl (if length new_content > max_file_size cfg then SizeLimitExceeded
                 else NotSupported)
       \<and> files (fst (update_file lib cfg s usr file_id new_content ip2)) = files s
       \<and> fs_files (fst (update_file lib cfg s usr file_id new_content ip2)) = fs_files s"
  by (simp add: read_file_def update_file_def read_file_try_encrypted[OF assms]
        update_file_try_encrypted[OF assms] path_exists_def)


theorem encrypted_records_not_supported_witness:
  "select_by_id shared_store1 alice 1 = [secret_file] \<and> f_is_encrypted secret_file
   \<and> fs_files shared_store1 (f_storage_path secret_file) \<noteq> None
   \<and> f_storage_path secret_file \<notin> fs_dirs shared_store1
   \<and> snd (read_file shared_store1 alice 1 None) = Inl NotSupported
   \<and> snd (update_file sample_library default_settings shared_store1 alice 1 ''new'' None)
        = Inl NotSupported
   \<and> files (fst (update_file sample_library default_settings shared_store1 alice 1 ''new'' None))
        = files shared_store1"
proof -
  have h1: "select_by_id shared_store1 alice 1 = [secret_file]" by code_simp
  have h2: "f_is_encrypted secret_file" by code_simp
  have h3: "fs_files shared_store1 (f_storage_path secret_file) \<noteq> None
            \<and> f_storage_path secret_file \<notin> fs_dirs shared_store1" by code_simp
  have h4: "\<not> length ''new'' > max_file_size default_settings"
    by (simp add: default_settings_def)
  from encrypted_records_not_supported[OF h1 h2, of None sample_library default_settings
      "''new''" None] h1 h2 h3 h4
  show ?thesis by simp
qed

text \<open>C8 as stated fails: an encrypted record whose bytes are gone is reported as not found,
  and an oversized update of an encrypted record is turned down for its size.\<close>

theorem not_supported_error_counterexample:
  "select_by_id shared_store3 alice 1 = [secret_file] \<and> f_is_encrypted secret_file
   \<and> snd (read_file shared_store3 alice 1 None) = Inl NotFound
   \<and> select_by_id shared_store1 alice 1 = [secret_file]
   \<and> snd (update_file sample_library tiny_settings shared_store1 alice 1 ''hello'' None)
        = Inl SizeLimitExceeded"
  by code_simp

section \<open>Properties of the content inspection\<close>

lemma max_with_cut:
  assumes "k \<le> 100" and "a = min (k + b) 101"
  shows "max_with (map (\<lambda>n. min (Suc k + n) 101) ns) a
           = min (k + max_with (map Suc ns) b) 101"
  using assms(2)
proof (induction ns arbitrary: a b)
  case Nil
  then show ?case by (simp add: max_with_def)
next
  case (Cons n ns)
  have "max (min (Suc k + n) 101) a = min (k + max (Suc n) b) 101"
    using Cons.prems by (simp add: min_def max_def)
  from Cons.IH[OF this] show ?case by (simp add: max_with_def)
qed

lemma get_json_depth_cut:
  "k \<le> 101 \<Longrightarrow> get_json_depth d k = min (k + nesting_depth d) 101"
proof (induction d arbitrary: k)
  case (PList items)
  show ?case
  proof (cases "k > 100")
    case True
    with PList.prems show ?thesis by (simp add: max_json_depth_def)
  next
    case False
    then have k: "k \<le> 100" by simp
    have step: "\<And>x. x \<in> set items
                  \<Longrightarrow> get_json_depth x (k + 1) = min (Suc k + nesting_depth x) 101"
      using PList.IH[of _ "k + 1"] k by simp
    have eq: "map (\<lambda>g. g (k + 1)) (map get_json_depth items)
                = map (\<lambda>n. min (Suc k + n) 101) (map nesting_depth items)"
      unfolding map_map comp_def by (rule map_cong[OF refl]) (rule step)
    have "get_json_depth (PList items) k
            = max_with (map (\<lambda>g. g (k + 1)) (map get_json_depth items)) k"
      using False by (simp only: get_json_depth.simps max_json_depth_def if_False)
    also have "\<dots> = max_with (map (\<lambda>n. min (Suc k + n) 101) (map nesting_depth items)) k"
      by (simp only: eq)
    also have "\<dots> = min (k + max_with (map Suc (map nesting_depth items)) 0) 101"
      using k by (intro max_with_cut) simp_all
    also have "\<dots> = min (k + nesting_depth (PList items)) 101"
      by (simp only: nesting_depth.simps)
    finally show ?thesis .
  qed
next
  case (PDict kvs)
  show ?case
  proof (cases "k > 100")
    case True
    with PDict.prems show ?thesis by (simp add: max_json_depth_def)
  next
    case False
    then have k: "k \<le> 100" by simp
    have step: "\<And>kv. kv \<in> set kvs
                  \<Longrightarrow> get_json_depth (snd kv) (k + 1) = min (Suc k + nesting_depth (snd kv)) 101"
    proof -
      fix kv assume "kv \<in> set kvs"
      moreover have "snd kv \<in> Basic_BNFs.snds kv" by (cases kv) simp
      ultimately show "get_json_depth (snd kv) (k + 1) = min (Suc k + nesting_depth (snd kv)) 101"
        using PDict.IH[of kv "snd kv" "k + 1"] k by simp
    qed
    have eq: "map (\<lambda>kg. snd kg (k + 1)) (map (map_prod id get_json_depth) kvs)
                = map (\<lambda>n. min (Suc k + n) 101) (map (\<lambda>kv. nesting_depth (snd kv)) kvs)"
      unfolding map_map comp_def snd_map_prod by (rule map_cong[OF refl]) (rule step)
    have eq2: "map (\<lambda>kn. Suc (snd kn)) (map (map_prod id nesting_depth) kvs)
            = map Suc (map (\<lambda>kv. nesting_depth (snd kv)) kvs)"
      unfolding map_map comp_def snd_map_prod ..
    have "get_json_depth (PDict kvs) k
            = max_with (map (\<lambda>kg. snd kg (k + 1)) (map (map_prod id get_json_depth) kvs)) k"
      using False by (simp only: get_json_depth.simps max_json_depth_def if_False)
    also have "\<dots> = max_with (map (\<lambda>n. min (Suc k + n) 101)
                              (map (\<lambda>kv. nesting_depth (snd kv)) kvs)) k"
      by (simp only: eq)
    also have "\<dots> = min (k + max_with (map Suc (map (\<lambda>kv. nesting_depth (snd kv)) kvs)) 0) 101"
      using k by (intro max_with_cut) simp_all
    also have "\<dots> = min (k + nesting_depth (PDict kvs)) 101"
      by (simp only: nesting_depth.simps eq2)
    finally show ?thesis .
  qed
qed (simp_all)

lemma get_json_depth_limit:
  "get_json_depth d 0 > max_json_depth \<longleftrightarrow> nesting_depth d > max_json_depth"
  using get_json_depth_cut[of 0 d] by (auto simp: max_json_depth_def min_def)

lemma safe_load_json_result:
  "safe_load_json lib c =
     (if utf8_len lib c \<le> max_json_size
         \<and> (case json_loads lib c of None \<Rightarrow> False
             | Some d \<Rightarrow> nesting_depth d \<le> max_json_depth)
      then Inr (the (json_loads lib c), check_value (the (json_loads lib c)))
      else Inl (if utf8_len lib c > max_json_size then JsonTooLarge
                else if json_loads lib c = None then JsonDecodeError else JsonTooDeep))"
  using get_json_depth_limit
  by (auto simp: safe_load_json_def Let_def validate_json_security_def not_less
        split: option.splits)

lemma safe_load_xml_result:
  "safe_load_xml lib c =
     (if utf8_len lib c > max_xml_size then Inl XmlTooLarge
      else if \<not> xmlparser_parser_attr lib then Inl AttributeError
      else if (case xml_fromstring lib c of None \<Rightarrow> False
               | Some r \<Rightarrow> element_count r \<le> max_xml_elements)
      then Inr (xml_to_dict (the (xml_fromstring lib c)),
                check_value (xml_to_dict (the (xml_fromstring lib c))))
      else Inl (if xml_fromstring lib c = None then XmlParseError else XmlTooManyElements))"
  by (auto simp: safe_load_xml_def create_secure_xml_parser_def Let_def
        validate_json_security_def not_less split: option.splits)

lemma json_not_xml: "endswith (lower fn) ''.json'' \<Longrightarrow> \<not> endswith (lower fn) ''.xml''"
  by (auto simp: endswith_def suffix_def)

lemma validate_file_format_accepted:
  assumes "format_checked fn" and "parses_within_limits lib fn c"
    and "parsed_value lib fn c = Some data"
    and "endswith (lower fn) ''.json'' \<or> xmlparser_parser_attr lib"
  shows "validate_file_format lib s fn c
           = (True, s\<lparr>log_warnings := log_warnings s @ check_value data\<rparr>)"
proof (cases "endswith (lower fn) ''.json''")
  case True
  with assms(2,3) show ?thesis
    by (simp add: validate_file_format_def parses_within_limits_def parsed_value_def
          safe_load_json_result)
next
  case False
  with assms have "endswith (lower fn) ''.xml''" and "xmlparser_parser_attr lib"
    by (simp_all add: format_checked_def)
  with False assms(2,3) show ?thesis
    by (auto simp add: validate_file_format_def parses_within_limits_def parsed_value_def
          safe_load_xml_result not_less)
qed

lemma validate_file_format_rejected:
  assumes "format_checked fn" and "\<not> parses_within_limits lib fn c"
  shows "\<exists>e. validate_file_format lib s fn c
           = (False, s\<lparr>log_warnings := log_warnings s @ [FormatValidationFailed fn e]\<rparr>)"
proof (cases "endswith (lower fn) ''.json''")
  case True
  with assms(2) show ?thesis
    by (auto simp add: validate_file_format_def parses_within_limits_def safe_load_json_result)
next
  case False
  with assms have "endswith (lower fn) ''.xml''" by (simp add: format_checked_def)
  with False assms(2) show ?thesis
    by (auto simp add: validate_file_format_def parses_within_limits_def safe_load_xml_result
          not_less)
qed

lemma validate_file_format_no_parser:
  assumes "endswith (lower fn) ''.xml''" and "\<not> xmlparser_parser_attr lib"
  shows "validate_file_format lib s fn c
           = (False, s\<lparr>log_warnings := log_warnings s @
                 [FormatValidationFailed fn
                    (if utf8_len lib c > max_xml_size then XmlTooLarge else AttributeError)]\<rparr>)"
proof -
  from assms(1) have "\<not> endswith (lower fn) ''.json''" using json_not_xml by blast
  with assms show ?thesis
    by (simp add: validate_file_format_def safe_load_xml_result)
qed

lemma create_file_try_rejected:
  assumes "format_checked fn" and "\<not> parses_within_limits lib fn (utf8_decode lib c)"
  shows "\<exists>s'. create_file_try lib cfg s usr fn c e d =
            (s', Inl (if length c > max_file_size cfg then SizeLimitExceeded else InvalidFormat))
          \<and> fs_files s' = fs_files s \<and> fs_dirs s' = fs_dirs s \<and> files s' = files s"
proof (cases "length c > max_file_size cfg")
  case True
  then show ?thesis by (simp add: create_file_try_def)
next
  case False
  from validate_file_format_rejected[OF assms, of s] obtain err where
    "validate_file_format lib s fn (utf8_decode lib c)
       = (False, s\<lparr>log_warnings := log_warnings s @ [FormatValidationFailed fn err]\<rparr>)"
    by blast
  with assms(1) False show ?thesis
    by (simp add: create_file_try_def check_format_def)
qed

text \<open>
  C10. For a name that ends in \<open>.json\<close> or \<open>.xml\<close> (in any letter case), when the decoded
  content does not parse within the limits (size and nesting depth for JSON, size and
  number of elements for XML), \<open>create_file\<close> fails: with the size error when the content
  exceeds the file size limit, and with the format error otherwise. No file, directory or
  record changes, and the duplicate query is never reached.
\<close>

theorem invalid_format_rejected_before_write:
  assumes "format_checked filename"
    and "\<not> parses_within_limits lib filename (utf8_decode lib content)"
  shows "(let outcome = create_file lib cfg s usr filename content encrypt directory_id ip in
            (snd outcome = Inl SizeLimitExceeded \<or> snd outcome = Inl InvalidFormat)
          \<and> (length content \<le> max_file_size cfg \<longrightarrow> snd outcome = Inl InvalidFormat)
          \<and> fs_files (fst outcome) = fs_files s
          \<and> fs_dirs (fst outcome) = fs_dirs s
          \<and> files (fst outcome) = files s)"
proof -
  from create_file_try_rejected[OF assms, of cfg s usr encrypt directory_id]
  obtain s' where t: "create_file_try lib cfg s usr filename content encrypt directory_id =
            (s', Inl (if length content > max_file_size cfg then SizeLimitExceeded
                      else InvalidFormat))"
    and same: "fs_files s' = fs_files s" "fs_dirs s' = fs_dirs s" "files s' = files s"
    by blast
  show ?thesis by (simp add: Let_def create_file_Inl[OF t] same)
qed

theorem invalid_format_rejected_before_write_witness:
  "format_checked ''note.json''
   \<and> \<not> parses_within_limits sample_library ''note.json'' (utf8_decode sample_library ''{'')
   \<and> select_by_name note_store alice ''note.json'' None \<noteq> []
   \<and> snd (create_file sample_library default_settings note_store alice ''note.json'' ''{''
            False None None) = Inl InvalidFormat
   \<and> fs_files (fst (create_file sample_library default_settings note_store alice ''note.json''
                     ''{'' False None None)) = fs_files note_store
   \<and> files (fst (create_file sample_library default_settings note_store alice ''note.json''
                   ''{'' False None None)) = files note_store"
proof -
  have h1: "format_checked ''note.json''" by code_simp
  have h2: "\<not> parses_within_limits sample_library ''note.json''
               (utf8_decode sample_library ''{'')" by code_simp
  have h3: "select_by_name note_store alice ''note.json'' None \<noteq> []" by code_simp
  have h4: "length ''{'' \<le> max_file_size default_settings" by (simp add: default_settings_def)
  from invalid_format_rejected_before_write[OF h1 h2, of default_settings note_store alice
      False None None] h1 h2 h3 h4
  show ?thesis by (simp add: Let_def)
qed

lemma sanitized_inside:
  assumes "validate_filename fn = Inr name"
  shows "prefix (resolve base) (resolve (path_join base name))"
proof -
  note facts = validate_filename_name(1,2)[OF assms]
  from facts(2) have "name \<noteq> ''..''" by auto
  with facts(1) show ?thesis by (simp add: path_join_name resolve_snoc)
qed

lemma create_file_try_succeeds:
  assumes size: "length content \<le> max_file_size cfg"
    and cf: "check_format lib s fn content = (True, s1)"
    and name: "validate_filename fn = Inr name"
    and mk: "user_dir cfg usr \<in> fs_dirs s
             \<or> fs_files s (user_dir cfg usr) = None \<and> butlast (user_dir cfg usr) \<in> fs_dirs s"
    and nodup: "select_by_name s usr fn dir = []"
    and p: "p = resolve (path_join (user_dir cfg usr) name)"
    and free: "p \<notin> insert (user_dir cfg usr) (fs_dirs s)"
    and parent: "butlast p \<in> insert (user_dir cfg usr) (fs_dirs s)"
  shows "create_file_try lib cfg s usr fn content enc dir =
           (s1\<lparr>fs_dirs := insert (user_dir cfg usr) (fs_dirs s),
               fs_files := (fs_files s)(p \<mapsto> final_content lib enc content),
               files := files s @ [new_file lib s usr fn content enc dir p
                          (sha256_hexdigest lib (final_content lib enc content))],
               next_file_id := Suc (next_file_id s)\<rparr>,
            Inr (new_file lib s usr fn content enc dir p
                   (sha256_hexdigest lib (final_content lib enc content))))"
proof -
  have s1_fields: "fs_files s1 = fs_files s" "fs_dirs s1 = fs_dirs s" "files s1 = files s"
      "next_file_id s1 = next_file_id s"
    using check_format_fields[of lib s fn content] by (simp_all add: cf)
  define s2 where "s2 = s1\<lparr>fs_dirs := insert (user_dir cfg usr) (fs_dirs s)\<rparr>"
  have mkd: "mkdir_exist_ok s1 (user_dir cfg usr) = Inr s2"
    using mk by (auto simp: mkdir_exist_ok_def s1_fields s2_def insert_absorb)
  have g: "get_safe_file_path cfg s1 usr fn = (s2, Inr p)"
    using sanitized_inside[OF name, of "user_dir cfg usr"]
    by (simp add: get_safe_file_path_def get_user_storage_path_def name mkd relative_to_def p)
  have sel: "select_by_name s2 usr fn dir = []"
    using nodup by (simp add: select_by_name_def s2_def s1_fields)
  define s3 where "s3 = s2\<lparr>fs_files := (fs_files s2)(p \<mapsto> final_content lib enc content)\<rparr>"
  have w: "write_bytes s2 p (final_content lib enc content) = Inr s3"
    using free parent by (simp add: write_bytes_def s2_def s3_def)
  note cs = checksum_after_write[OF w, of lib]
  have nf: "new_file lib s3 usr fn content enc dir p
               (sha256_hexdigest lib (final_content lib enc content))
            = new_file lib s usr fn content enc dir p
               (sha256_hexdigest lib (final_content lib enc content))"
    by (simp add: new_file_def s3_def s2_def s1_fields)
  have "create_file_try lib cfg s usr fn content enc dir =
          (add_file s3 (new_file lib s3 usr fn content enc dir p
                          (sha256_hexdigest lib (final_content lib enc content))),
           Inr (new_file lib s3 usr fn content enc dir p
                  (sha256_hexdigest lib (final_content lib enc content))))"
    using size by (simp add: create_file_try_def cf g sel scalar_one_or_none_def w cs)
  then have "create_file_try lib cfg s usr fn content enc dir =
          (add_file s3 (new_file lib s usr fn content enc dir p
                          (sha256_hexdigest lib (final_content lib enc content))),
           Inr (new_file lib s usr fn content enc dir p
                  (sha256_hexdigest lib (final_content lib enc content))))"
    unfolding nf .
  then show ?thesis
    by (simp add: add_file_def s3_def s2_def s1_fields)
qed

lemma get_safe_file_path_errors:
  "get_safe_file_path cfg s usr fn = (s', Inl e) \<Longrightarrow>
   e = InvalidName \<or> e = FileExistsError \<or> e = FileNotFoundError \<or> e = PathTraversal"
  by (auto simp: get_safe_file_path_def get_user_storage_path_def Let_def
        split: sum.splits if_splits dest: validate_filename_error mkdir_exist_ok_error)

lemma create_file_try_not_format_error:
  assumes "fst (check_format lib s fn content)"
  shows "snd (create_file_try lib cfg s usr fn content enc dir) \<noteq> Inl InvalidFormat"
proof -
  obtain s1 where cf: "check_format lib s fn content = (True, s1)"
    using assms by (cases "check_format lib s fn content") auto
  obtain s2 res where g: "get_safe_file_path cfg s1 usr fn = (s2, res)"
    by (cases "get_safe_file_path cfg s1 usr fn")
  show ?thesis
  proof (cases res)
    case (Inl e)
    with g get_safe_file_path_errors have "e \<noteq> InvalidFormat" by blast
    with Inl g cf show ?thesis by (simp add: create_file_try_def)
  next
    case (Inr p)
    with g cf show ?thesis
      by (auto simp: create_file_try_def scalar_one_or_none_def write_bytes_def
            calculate_file_checksum_def read_bytes_def
            split: list.splits if_splits option.splits sum.splits)
  qed
qed


text \<open>
  Once the validator gets as far as the pattern scan (always for a \<open>.json\<close> name, and for
  a \<open>.xml\<close> name only with a parser object that has the attribute \<open>parser\<close>), the format
  gate of \<open>create_file\<close> accepts whatever the scan finds in content that parses within the
  limits: it only appends the scan's warnings to the log. \<open>create_file\<close> never fails with
  the format error, and when the remaining steps can go through (size within the limit, a
  valid name, a sandbox that exists or can be made, no record of that name, a free storage
  path) it succeeds, the bytes are on disk, and the log has grown by exactly the scan's
  warnings.
\<close>

lemma suspicious_patterns_do_not_block:
  assumes checked: "format_checked filename"
    and parses: "parses_within_limits lib filename (utf8_decode lib content)"
    and data: "parsed_value lib filename (utf8_decode lib content) = Some data"
    and scan: "endswith (lower filename) ''.json'' \<or> xmlparser_parser_attr lib"
  shows "check_format lib s filename content
           = (True, s\<lparr>log_warnings := log_warnings s @ check_value data\<rparr>)
       \<and> snd (create_file lib cfg s usr filename content encrypt directory_id ip)
            \<noteq> Inl InvalidFormat
       \<and> (length content \<le> max_file_size cfg
           \<and> validate_filename filename = Inr name
           \<and> (user_dir cfg usr \<in> fs_dirs s
                \<or> fs_files s (user_dir cfg usr) = None \<and> butlast (user_dir cfg usr) \<in> fs_dirs s)
           \<and> select_by_name s usr filename directory_id = []
           \<and> p = resolve (path_join (user_dir cfg usr) name)
           \<and> p \<notin> insert (user_dir cfg usr) (fs_dirs s)
           \<and> butlast p \<in> insert (user_dir cfg usr) (fs_dirs s)
          \<longrightarrow> \<not> isl (snd (create_file lib cfg s usr filename content encrypt directory_id ip))
              \<and> fs_files (fst (create_file lib cfg s usr filename content encrypt
                                 directory_id ip)) p
                   = Some (final_content lib encrypt content)
              \<and> log_warnings (fst (create_file lib cfg s usr filename content encrypt
                                     directory_id ip))
                   = log_warnings s @ check_value data)"
proof (intro conjI impI)
  show cf: "check_format lib s filename content
           = (True, s\<lparr>log_warnings := log_warnings s @ check_value data\<rparr>)"
    using validate_file_format_accepted[OF checked parses data scan, of s]
    by (simp add: check_format_def checked)
  then have "fst (check_format lib s filename content)" by simp
  from create_file_try_not_format_error[OF this, of cfg usr encrypt directory_id]
  show "snd (create_file lib cfg s usr filename content encrypt directory_id ip)
            \<noteq> Inl InvalidFormat"
    by (auto simp: create_file_def split: prod.splits sum.splits)
  assume a: "length content \<le> max_file_size cfg
           \<and> validate_filename filename = Inr name
           \<and> (user_dir cfg usr \<in> fs_dirs s
                \<or> fs_files s (user_dir cfg usr) = None \<and> butlast (user_dir cfg usr) \<in> fs_dirs s)
           \<and> select_by_name s usr filename directory_id = []
           \<and> p = resolve (path_join (user_dir cfg usr) name)
           \<and> p \<notin> insert (user_dir cfg usr) (fs_dirs s)
           \<and> butlast p \<in> insert (user_dir cfg usr) (fs_dirs s)"
  then have t: "create_file_try lib cfg s usr filename content encrypt directory_id =
           (s\<lparr>log_warnings := log_warnings s @ check_value data\<rparr>
              \<lparr>fs_dirs := insert (user_dir cfg usr) (fs_dirs s),
               fs_files := (fs_files s)(p \<mapsto> final_content lib encrypt content),
               files := files s @ [new_file lib s usr filename content encrypt directory_id p
                          (sha256_hexdigest lib (final_content lib encrypt content))],
               next_file_id := Suc (next_file_id s)\<rparr>,
            Inr (new_file lib s usr filename content encrypt directory_id p
                   (sha256_hexdigest lib (final_content lib encrypt content))))"
  proof -
    from a have a1: "length content \<le> max_file_size cfg"
      and a2: "validate_filename filename = Inr name"
      and a3: "user_dir cfg usr \<in> fs_dirs s
                \<or> fs_files s (user_dir cfg usr) = None \<and> butlast (user_dir cfg usr) \<in> fs_dirs s"
      and a4: "select_by_name s usr filename directory_id = []"
      and a5: "p = resolve (path_join (user_dir cfg usr) name)"
      and a6: "p \<notin> insert (user_dir cfg usr) (fs_dirs s)"
      and a7: "butlast p \<in> insert (user_dir cfg usr) (fs_dirs s)"
      by blast+
    show ?thesis by (rule create_file_try_succeeds[OF a1 cf a2 a3 a4 a5 a6 a7])
  qed
  show "\<not> isl (snd (create_file lib cfg s usr filename content encrypt directory_id ip))"
    "fs_files (fst (create_file lib cfg s usr filename content encrypt directory_id ip)) p
       = Some (final_content lib encrypt content)"
    "log_warnings (fst (create_file lib cfg s usr filename content encrypt directory_id ip))
       = log_warnings s @ check_value data"
    by (simp_all add: create_file_def t)
qed

lemma suspicious_json_patterns_logged:
  "format_checked ''note.json''
   \<and> parses_within_limits sample_library ''note.json'' (utf8_decode sample_library script_json)
   \<and> parsed_value sample_library ''note.json'' (utf8_decode sample_library script_json)
        = Some (PDict [(''note'', PStr ''<script>alert(1)</script>'')])
   \<and> check_value (PDict [(''note'', PStr ''<script>alert(1)</script>'')])
        = [SuspiciousPattern ''<script'', SuspiciousPattern ''</script>'']
   \<and> \<not> isl (snd (create_file sample_library default_settings fresh_store alice ''note.json''
                 script_json False None None))
   \<and> fs_files (fst (create_file sample_library default_settings fresh_store alice ''note.json''
                     script_json False None None))
         [''app'', ''safe_storage'', ''user_1'', ''note.json''] = Some script_json
   \<and> log_warnings (fst (create_file sample_library default_settings fresh_store alice
                         ''note.json'' script_json False None None))
        = [SuspiciousPattern ''<script'', SuspiciousPattern ''</script>'']"
proof -
  have h1: "format_checked ''note.json''" by code_simp
  have h2: "parses_within_limits sample_library ''note.json''
              (utf8_decode sample_library script_json)" by code_simp
  have h3: "parsed_value sample_library ''note.json'' (utf8_decode sample_library script_json)
        = Some (PDict [(''note'', PStr ''<script>alert(1)</script>'')])" by code_simp
  have h4: "check_value (PDict [(''note'', PStr ''<script>alert(1)</script>'')])
        = [SuspiciousPattern ''<script'', SuspiciousPattern ''</script>'']" by code_simp
  have h5: "length script_json \<le> max_file_size default_settings" by code_simp
  have h6: "validate_filename ''note.json'' = Inr ''note.json''" by code_simp
  have h7: "fs_files fresh_store (user_dir default_settings alice) = None
            \<and> butlast (user_dir default_settings alice) \<in> fs_dirs fresh_store" by code_simp
  have h8: "select_by_name fresh_store alice ''note.json'' None = []" by code_simp
  have h9: "[''app'', ''safe_storage'', ''user_1'', ''note.json'']
              = resolve (path_join (user_dir default_settings alice) ''note.json'')" by code_simp
  have h10: "[''app'', ''safe_storage'', ''user_1'', ''note.json'']
               \<notin> insert (user_dir default_settings alice) (fs_dirs fresh_store)
             \<and> butlast [''app'', ''safe_storage'', ''user_1'', ''note.json'']
               \<in> insert (user_dir default_settings alice) (fs_dirs fresh_store)" by code_simp
  have h11: "log_warnings fresh_store = []" by code_simp
  have h12: "final_content sample_library False script_json = script_json" by code_simp
  have h13: "endswith (lower ''note.json'') ''.json'' \<or> xmlparser_parser_attr sample_library"
    by code_simp
  from suspicious_patterns_do_not_block[OF h1 h2 h3 h13, where cfg = default_settings
      and name = "''note.json''" and usr = alice and s = fresh_store
      and p = "[''app'', ''safe_storage'', ''user_1'', ''note.json'']"
      and encrypt = False and directory_id = None and ip = None]
    h5 h6 h7 h8 h9 h10
  have "\<not> isl (snd (create_file sample_library default_settings fresh_store alice ''note.json''
                 script_json False None None))
   \<and> fs_files (fst (create_file sample_library default_settings fresh_store alice ''note.json''
                     script_json False None None))
         [''app'', ''safe_storage'', ''user_1'', ''note.json'']
        = Some (final_content sample_library False script_json)
   \<and> log_warnings (fst (create_file sample_library default_settings fresh_store alice
                         ''note.json'' script_json False None None))
        = log_warnings fresh_store
            @ check_value (PDict [(''note'', PStr ''<script>alert(1)</script>'')])"
    by blast
  with h1 h2 h3 h4 h11 h12 show ?thesis by simp
qed

lemma xml_create_rejected:
  assumes "endswith (lower filename) ''.xml''" and "\<not> xmlparser_parser_attr lib"
  shows "(let outcome = create_file lib cfg s usr filename content encrypt directory_id ip in
            (length content > max_file_size cfg \<longrightarrow> snd outcome = Inl SizeLimitExceeded)
          \<and> (length content \<le> max_file_size cfg \<longrightarrow> snd outcome = Inl InvalidFormat)
          \<and> fs_files (fst outcome) = fs_files s
          \<and> fs_dirs (fst outcome) = fs_dirs s
          \<and> files (fst outcome) = files s)"
proof (cases "length content > max_file_size cfg")
  case True
  then have "create_file_try lib cfg s usr filename content encrypt directory_id
               = (s, Inl SizeLimitExceeded)"
    by (simp add: create_file_try_def)
  with True show ?thesis by (simp add: Let_def create_file_def)
next
  case False
  from assms(1) have fc: "format_checked filename" by (simp add: format_checked_def)
  note v = validate_file_format_no_parser[OF assms, of s "utf8_decode lib content"]
  have "create_file_try lib cfg s usr filename content encrypt directory_id
          = (snd (validate_file_format lib s filename (utf8_decode lib content)),
             Inl InvalidFormat)"
    using False fc by (simp add: create_file_try_def check_format_def v)
  with False show ?thesis by (simp add: Let_def create_file_def v)
qed

text \<open>
  C9 holds for JSON content and fails for XML content. With the parser object of CPython,
  \<open>_create_secure_xml_parser\<close> raises \<open>AttributeError\<close> before any text is parsed, the
  validator turns the exception into a rejection, and \<open>create_file\<close> fails with the format
  error for every \<open>.xml\<close> name: here for \<open>page.xml\<close> with a well-formed document of one
  element, within every limit, whose text the pattern scan would flag. Nothing is written
  and the scan never runs.
\<close>

theorem suspicious_xml_rejected:
  "format_checked ''page.xml''
   \<and> parses_within_limits sample_library ''page.xml'' (utf8_decode sample_library script_xml)
   \<and> parsed_value sample_library ''page.xml'' (utf8_decode sample_library script_xml)
        = Some (PStr ''javascript:alert(1)'')
   \<and> check_value (PStr ''javascript:alert(1)'') = [SuspiciousPattern ''javascript:'']
   \<and> create_secure_xml_parser sample_library = Inl AttributeError
   \<and> snd (create_file sample_library default_settings fresh_store alice ''page.xml''
            script_xml False None None) = Inl InvalidFormat
   \<and> fs_files (fst (create_file sample_library default_settings fresh_store alice ''page.xml''
                     script_xml False None None))
         [''app'', ''safe_storage'', ''user_1'', ''page.xml''] = None
   \<and> files (fst (create_file sample_library default_settings fresh_store alice ''page.xml''
                   script_xml False None None)) = []
   \<and> log_warnings (fst (create_file sample_library default_settings fresh_store alice
                         ''page.xml'' script_xml False None None))
        = [FormatValidationFailed ''page.xml'' AttributeError]"
  by code_simp

lemma update_file_Inr:
  assumes "update_file lib cfg s usr file_id new_content ip = (s', Inr r')"
  shows "\<exists>r. select_by_id s usr file_id = [r]
           \<and> r' = r\<lparr>f_size := length new_content,
                     f_checksum := Some (sha256_hexdigest lib new_content)\<rparr>
           \<and> fs_files s' = (fs_files s)(f_storage_path r \<mapsto> new_content)
           \<and> files s' = map (\<lambda>x. if f_id x = f_id r then r' else x) (files s)"
proof -
  from assms obtain s0 where t: "update_file_try lib cfg s usr file_id new_content = (s0, Inr r')"
    and s': "s' = log_operation s0 usr UPDATE (''Updated file: '' @ f_original_name r')
                    (Some (f_id r')) ip True None"
    by (auto simp: update_file_def split: prod.splits sum.splits)
  from t obtain r where sel: "select_by_id s usr file_id = [r]"
    by (auto simp: update_file_try_def scalar_one_or_none_def split: list.splits)
  from t sel obtain s1 where w: "write_bytes s (f_storage_path r) new_content = Inr s1"
    by (auto simp: update_file_try_def scalar_one_or_none_def split: if_splits sum.splits)
  note cs = checksum_after_write[OF w, of lib]
  from w have s1: "s1 = s\<lparr>fs_files := (fs_files s)(f_storage_path r \<mapsto> new_content)\<rparr>"
    by (simp add: write_bytes_Inr)
  from t sel w cs have r': "r' = r\<lparr>f_size := length new_content,
                     f_checksum := Some (sha256_hexdigest lib new_content)\<rparr>"
    and s0: "s0 = flush_file s1 r'"
    by (auto simp: update_file_try_def scalar_one_or_none_def split: if_splits)
  have "fs_files s' = (fs_files s)(f_storage_path r \<mapsto> new_content)"
    by (simp add: s' s0 flush_file_def s1)
  moreover have "files s' = map (\<lambda>x. if f_id x = f_id r then r' else x) (files s)"
    by (simp add: s' s0 flush_file_def s1 r')
  ultimately show ?thesis using sel r' by blast
qed

text \<open>
  What a successful write establishes for the record it returns. After \<open>create_file\<close> the
  record has the length of the plaintext as its size and the digest of the bytes now on disk
  as its checksum; it is in the table, and its storage location is the entry of the owner's
  sandbox named by the sanitized display name. After \<open>update_file\<close> the record has the new
  length and the digest of the new bytes on disk, and keeps the storage location it had.
\<close>

lemma written_record_invariants:
  "(create_file lib cfg s usr filename content encrypt directory_id ip = (s1, Inr r) \<longrightarrow>
      f_size r = length content
    \<and> fs_files s1 (f_storage_path r) = Some (final_content lib encrypt content)
    \<and> f_checksum r = Some (sha256_hexdigest lib (final_content lib encrypt content))
    \<and> r \<in> set (files s1)
    \<and> (\<exists>name. validate_filename filename = Inr name
           \<and> f_storage_path r = resolve (path_join (user_dir cfg usr) name))
    \<and> prefix (resolve (user_dir cfg usr)) (f_storage_path r)
    \<and> (resolve (user_dir cfg usr) = user_dir cfg usr
           \<longrightarrow> strict_prefix (user_dir cfg usr) (f_storage_path r)))
   \<and> (update_file lib cfg s usr file_id new_content ip = (s2, Inr r') \<longrightarrow>
      f_size r' = length new_content
    \<and> fs_files s2 (f_storage_path r') = Some new_content
    \<and> f_checksum r' = Some (sha256_hexdigest lib new_content)
    \<and> r' \<in> set (files s2)
    \<and> (\<exists>r0. select_by_id s usr file_id = [r0] \<and> f_storage_path r' = f_storage_path r0))"
proof (intro conjI impI)
  assume c: "create_file lib cfg s usr filename content encrypt directory_id ip = (s1, Inr r)"
  note f = create_file_Inr_facts[OF c]
  show "f_size r = length content" by (rule f(8))
  show "fs_files s1 (f_storage_path r) = Some (final_content lib encrypt content)"
    by (simp add: f(10))
  show "f_checksum r = Some (sha256_hexdigest lib (final_content lib encrypt content))"
    by (rule f(9))
  show "r \<in> set (files s1)" by (simp add: f(1))
  show "\<exists>name. validate_filename filename = Inr name
           \<and> f_storage_path r = resolve (path_join (user_dir cfg usr) name)" by (rule f(16))
  show "prefix (resolve (user_dir cfg usr)) (f_storage_path r)" by (rule f(17))
  assume "resolve (user_dir cfg usr) = user_dir cfg usr"
  with f(17) have "prefix (user_dir cfg usr) (f_storage_path r)" by simp
  moreover from f(11) f(12) have "f_storage_path r \<noteq> user_dir cfg usr" by auto
  ultimately show "strict_prefix (user_dir cfg usr) (f_storage_path r)"
    by (auto simp: strict_prefix_def)
next
  assume u: "update_file lib cfg s usr file_id new_content ip = (s2, Inr r')"
  from update_file_Inr[OF u] obtain r0 where sel: "select_by_id s usr file_id = [r0]"
    and r': "r' = r0\<lparr>f_size := length new_content,
                     f_checksum := Some (sha256_hexdigest lib new_content)\<rparr>"
    and fs: "fs_files s2 = (fs_files s)(f_storage_path r0 \<mapsto> new_content)"
    and fl: "files s2 = map (\<lambda>x. if f_id x = f_id r0 then r' else x) (files s)"
    by blast
  show "f_size r' = length new_content" by (simp add: r')
  show "fs_files s2 (f_storage_path r') = Some new_content" by (simp add: fs r')
  show "f_checksum r' = Some (sha256_hexdigest lib new_content)" by (simp add: r')
  have "r0 \<in> set (select_by_id s usr file_id)" by (simp add: sel)
  then have "r0 \<in> set (files s)" by (simp add: select_by_id_def)
  then show "r' \<in> set (files s2)" by (force simp: fl)
  from sel show "\<exists>r0. select_by_id s usr file_id = [r0] \<and> f_storage_path r' = f_storage_path r0"
    by (simp add: r')
qed


lemma written_record_invariants_example:
  "snd (create_file sample_library default_settings fresh_store alice ''a.txt'' ''hello''
          False None None) = Inr hello_file
   \<and> resolve (user_dir default_settings alice) = user_dir default_settings alice
   \<and> f_size hello_file = length ''hello''
   \<and> fs_files hello_store (f_storage_path hello_file) = Some ''hello''
   \<and> f_checksum hello_file = Some (sha256_hexdigest sample_library ''hello'')
   \<and> strict_prefix (user_dir default_settings alice) (f_storage_path hello_file)
   \<and> snd (update_file sample_library default_settings hello_store alice 1 ''bye'' None)
        = Inr (hello_file\<lparr>f_size := 3, f_checksum := Some ''sha256(bye)''\<rparr>)
   \<and> fs_files (fst (update_file sample_library default_settings hello_store alice 1 ''bye'' None))
         (f_storage_path hello_file) = Some ''bye''"
proof -
  have c: "snd (create_file sample_library default_settings fresh_store alice ''a.txt'' ''hello''
          False None None) = Inr hello_file" by code_simp
  then have hc: "create_file sample_library default_settings fresh_store alice ''a.txt'' ''hello''
          False None None = (hello_store, Inr hello_file)"
    by (simp add: prod_eq_iff hello_store_def)
  have u: "snd (update_file sample_library default_settings hello_store alice 1 ''bye'' None)
        = Inr (hello_file\<lparr>f_size := 3, f_checksum := Some ''sha256(bye)''\<rparr>)" by code_simp
  then have hu: "update_file sample_library default_settings hello_store alice 1 ''bye'' None
        = (fst (update_file sample_library default_settings hello_store alice 1 ''bye'' None),
           Inr (hello_file\<lparr>f_size := 3, f_checksum := Some ''sha256(bye)''\<rparr>))"
    by (simp add: prod_eq_iff)
  have r: "resolve (user_dir default_settings alice) = user_dir default_settings alice"
    by code_simp
  have fc: "final_content sample_library False ''hello'' = ''hello''" by code_simp
  from written_record_invariants[where lib = sample_library and cfg = default_settings
      and s = fresh_store and usr = alice and filename = "''a.txt''" and content = "''hello''"
      and encrypt = False and directory_id = None and ip = None and ?s1.0 = hello_store
      and r = hello_file] hc r
  have a: "f_size hello_file = length ''hello''
      \<and> fs_files hello_store (f_storage_path hello_file)
           = Some (final_content sample_library False ''hello'')
      \<and> f_checksum hello_file
           = Some (sha256_hexdigest sample_library (final_content sample_library False ''hello''))
      \<and> strict_prefix (user_dir default_settings alice) (f_storage_path hello_file)"
    by blast
  from written_record_invariants[where lib = sample_library and cfg = default_settings
      and s = hello_store and usr = alice and file_id = 1 and new_content = "''bye''"
      and ip = None
      and ?s2.0 = "fst (update_file sample_library default_settings hello_store alice 1 ''bye'' None)"
      and r' = "hello_file\<lparr>f_size := 3, f_checksum := Some ''sha256(bye)''\<rparr>"] hu
  have b: "fs_files (fst (update_file sample_library default_settings hello_store alice 1 ''bye'' None))
         (f_storage_path (hello_file\<lparr>f_size := 3, f_checksum := Some ''sha256(bye)''\<rparr>))
         = Some ''bye''"
    by blast
  from a b c u r fc show ?thesis by simp
qed

text \<open>
  C7 fails in its uniqueness part, and with it the size and the checksum of the older record
  stop matching the bytes on disk. The storage location is made of the owner and the
  sanitized display name only, while the duplicate query compares the display name as given
  and the directory. \<open>alice\<close> creates \<open>a.txt\<close> with content \<open>hello\<close> outside any
  directory and then \<open>a.txt\<close> with content \<open>bye\<close> in directory 5: both calls succeed,
  both records point to \<open>user_1/a.txt\<close>, the second write replaces the bytes of the first,
  and reading the first record returns \<open>bye\<close> under the size and the checksum of
  \<open>hello\<close>. The display names \<open>a/b\<close> and \<open>a_b\<close> in one directory collide in the same way.
\<close>

theorem storage_location_shared:
  "snd (create_file sample_library default_settings fresh_store alice ''a.txt'' ''hello''
          False None None) = Inr hello_file
   \<and> \<not> isl (snd (create_file sample_library default_settings hello_store alice ''a.txt''
                 ''bye'' False (Some 5) None))
   \<and> map f_original_name (files twin_store) = [''a.txt'', ''a.txt'']
   \<and> map f_directory_id (files twin_store) = [None, Some 5]
   \<and> map f_owner_id (files twin_store) = [1, 1]
   \<and> map f_storage_path (files twin_store)
        = [[''app'', ''safe_storage'', ''user_1'', ''a.txt''],
           [''app'', ''safe_storage'', ''user_1'', ''a.txt'']]
   \<and> map f_size (files twin_store) = [5, 3]
   \<and> map f_checksum (files twin_store) = [Some ''sha256(hello)'', Some ''sha256(bye)'']
   \<and> fs_files twin_store [''app'', ''safe_storage'', ''user_1'', ''a.txt''] = Some ''bye''
   \<and> snd (read_file twin_store alice 1 None) = Inr (hello_file, ''bye'')
   \<and> \<not> isl (snd (create_file sample_library default_settings fresh_store alice ''a/b''
                 ''hello'' False None None))
   \<and> \<not> isl (snd (create_file sample_library default_settings slash_store alice ''a_b'' ''bye''
                 False None None))
   \<and> map f_original_name (files underscore_store) = [''a/b'', ''a_b'']
   \<and> map f_storage_path (files underscore_store)
        = [[''app'', ''safe_storage'', ''user_1'', ''a_b''],
           [''app'', ''safe_storage'', ''user_1'', ''a_b'']]
   \<and> map f_size (files underscore_store) = [5, 3]
   \<and> fs_files underscore_store [''app'', ''safe_storage'', ''user_1'', ''a_b''] = Some ''bye''"
  by code_simp

end
